theory Spec2Isabelle
  imports Complex_Main "HOL-Library.Word"
begin

unbundle bit_operations_syntax

section \<open>Numeric types of the shader\<close>

text \<open>
  The HLSL source works on 32-bit unsigned and signed integers and on 32-bit floats.
  Unsigned and signed integers are both 32-bit words (\<open>+\<close>, \<open>-\<close>, \<open>*\<close> wrap around);
  \<open>unat\<close> reads a word as \<open>uint\<close>, \<open>sint\<close> reads it as \<open>int\<close>.  The implicit
  conversion of an \<open>int\<close> operand to \<open>uint\<close> keeps the bits, so it is the identity on
  words.  Floats are idealised as real numbers: rounding, infinities and NaN are not
  represented, and every statement about a \<open>float\<close> below is a statement about exact
  real arithmetic.
\<close>

type_synonym uint = "32 word"
type_synonym int32 = "32 word"
type_synonym float = real

datatype 'a vec2 = Vec2 (x2: 'a) (y2: 'a)
datatype 'a vec3 = Vec3 (x3: 'a) (y3: 'a) (z3: 'a)
datatype 'a vec4 = Vec4 (x4: 'a) (y4: 'a) (z4: 'a) (w4: 'a)

text \<open>The swizzle \<open>.xyz\<close> (also written \<open>.rgb\<close>) of a four-component vector.\<close>

definition xyz :: "'a vec4 \<Rightarrow> 'a vec3" where
  "xyz v = Vec3 (x4 v) (y4 v) (z4 v)"

text \<open>Componentwise application of a binary operator, as HLSL does for vector operands.\<close>

definition zip3 :: "('a \<Rightarrow> 'b \<Rightarrow> 'c) \<Rightarrow> 'a vec3 \<Rightarrow> 'b vec3 \<Rightarrow> 'c vec3" where
  "zip3 f a b = Vec3 (f (x3 a) (x3 b)) (f (y3 a) (y3 b)) (f (z3 a) (z3 b))"

text \<open>
  Unsigned division and remainder.  On Direct3D hardware \<open>udiv\<close> by zero yields
  \<open>0xFFFFFFFF\<close> for quotient and remainder; HOL would silently return \<open>0\<close> and the
  dividend, so the case is written out.
\<close>

definition udiv :: "uint \<Rightarrow> uint \<Rightarrow> uint" where
  "udiv a b = (if b = 0 then - 1 else a div b)"

definition umod :: "uint \<Rightarrow> uint \<Rightarrow> uint" where
  "umod a b = (if b = 0 then - 1 else a mod b)"

text \<open>Conversions of integers to float.\<close>

definition uint_to_float :: "uint \<Rightarrow> float" where
  "uint_to_float u = real (unat u)"

definition int_to_float :: "int32 \<Rightarrow> float" where
  "int_to_float i = real_of_int (sint i)"

section \<open>The constant buffer\<close>

text \<open>\<open>struct DDGIData\<close>; the arrays of four elements are lists indexed by the cascade.\<close>

record DDGIData =
  ProbesOriginAndSpacing :: "float vec4 list"
  ProbesScrollOffsets :: "int32 vec4 list"
  ProbeScrollDirections :: "int32 vec4 list"
  ProbesCounts :: "uint vec3"
  CascadesCount :: uint
  IrradianceGamma :: float
  ProbeHistoryWeight :: float
  RayMaxDistance :: float
  IndirectLightingIntensity :: float
  RaysRotation :: "float vec4"
  ViewDir :: "float vec3"
  RaysCount :: uint
  FallbackIrradiance :: "float vec3"
  Padding0 :: float

section \<open>Probe addressing\<close>

definition GetDDGIProbeIndex :: "DDGIData \<Rightarrow> uint vec3 \<Rightarrow> uint" where
  "GetDDGIProbeIndex data probeCoords =
     (let probesPerPlane = x3 (ProbesCounts data) * z3 (ProbesCounts data);
          planeIndex = y3 probeCoords;
          probeIndexInPlane = x3 probeCoords + (x3 (ProbesCounts data) * z3 probeCoords)
      in planeIndex * probesPerPlane + probeIndexInPlane)"

definition GetDDGIProbeCoords :: "DDGIData \<Rightarrow> uint \<Rightarrow> uint vec3" where
  "GetDDGIProbeCoords data probeIndex =
     Vec3 (umod probeIndex (x3 (ProbesCounts data)))
          (udiv probeIndex (x3 (ProbesCounts data) * z3 (ProbesCounts data)))
          (umod (udiv probeIndex (x3 (ProbesCounts data))) (z3 (ProbesCounts data)))"

definition GetDDGIProbeTexelCoords :: "DDGIData \<Rightarrow> uint \<Rightarrow> uint \<Rightarrow> uint vec2" where
  "GetDDGIProbeTexelCoords data cascadeIndex probeIndex =
     (let probesPerPlane = x3 (ProbesCounts data) * z3 (ProbesCounts data);
          planeIndex = udiv probeIndex probesPerPlane;
          gridSpaceX = umod probeIndex (x3 (ProbesCounts data));
          gridSpaceY = udiv probeIndex (x3 (ProbesCounts data));
          x = gridSpaceX + (planeIndex * x3 (ProbesCounts data));
          y = umod gridSpaceY (z3 (ProbesCounts data)) + cascadeIndex * z3 (ProbesCounts data)
      in Vec2 x y)"

text \<open>
  \<open>probeCoords + ProbesScrollOffsets[cascadeIndex].xyz + ProbesCounts\<close> mixes \<open>uint3\<close>
  and \<open>int3\<close>; the sum is unsigned, modulo \<open>2^32\<close>, and \<open>%\<close> is the unsigned remainder.
\<close>

definition GetDDGIScrollingProbeIndex :: "DDGIData \<Rightarrow> uint \<Rightarrow> uint vec3 \<Rightarrow> uint" where
  "GetDDGIScrollingProbeIndex data cascadeIndex probeCoords =
     GetDDGIProbeIndex data
       (zip3 umod
          (zip3 (+) (zip3 (+) probeCoords (xyz (ProbesScrollOffsets data ! unat cascadeIndex)))
                    (ProbesCounts data))
          (ProbesCounts data))"


section \<open>Float intrinsics and helpers\<close>

text \<open>HLSL intrinsics \<open>saturate\<close>, \<open>lerp\<close>, \<open>clamp\<close>, \<open>dot\<close>, \<open>length\<close>, \<open>normalize\<close>, \<open>pow\<close>.\<close>

definition saturate :: "float \<Rightarrow> float" where
  "saturate v = min (max v 0) 1"

definition lerp :: "float \<Rightarrow> float \<Rightarrow> float \<Rightarrow> float" where
  "lerp a b s = a + s * (b - a)"

definition clamp_uint :: "uint \<Rightarrow> uint \<Rightarrow> uint \<Rightarrow> uint" where
  "clamp_uint v lo hi = min (max v lo) hi"

definition dot3 :: "float vec3 \<Rightarrow> float vec3 \<Rightarrow> float" where
  "dot3 a b = x3 a * x3 b + y3 a * y3 b + z3 a * z3 b"

definition length3 :: "float vec3 \<Rightarrow> float" where
  "length3 v = sqrt (dot3 v v)"

text \<open>
  \<open>normalize(v)\<close> divides by the length.  For the zero vector the shader produces NaN;
  the real-valued model has no NaN and yields the zero vector there.
\<close>

definition normalize3 :: "float vec3 \<Rightarrow> float vec3" where
  "normalize3 v = map_vec3 (\<lambda>c. c / length3 v) v"

text \<open>\<open>pow(x, y)\<close>, faithful for \<open>x > 0\<close>, and for \<open>x = 0\<close> with \<open>y > 0\<close>.\<close>

definition pow :: "float \<Rightarrow> float \<Rightarrow> float" where
  "pow b e = b powr e"

text \<open>
  The cast \<open>uint(f)\<close> of a float, as the Direct3D conversion instruction performs it:
  round towards zero, negative values give \<open>0\<close>, values beyond the range give
  \<open>0xFFFFFFFF\<close>.
\<close>

definition float_to_uint :: "float \<Rightarrow> uint" where
  "float_to_uint f =
     (if f \<le> 0 then 0 else if 4294967295 \<le> f then - 1 else word_of_int \<lfloor>f\<rfloor>)"

text \<open>
  Modelled from the spec: \<open>Min3\<close> is declared in \<open>Flax/Math.hlsl\<close>, which is not among
  the sources at hand; the spec reads it as the minimum over the three axes.
\<close>

definition Min3 :: "float vec3 \<Rightarrow> float" where
  "Min3 v = min (x3 v) (min (y3 v) (z3 v))"

text \<open>
  Modelled from the spec: \<open>Square\<close> is declared in \<open>Flax/Math.hlsl\<close>, which is not among
  the sources at hand; the spec writes the square of its argument.
\<close>

definition Square :: "float \<Rightarrow> float" where
  "Square v = v * v"

text \<open>
  Modelled from the spec: \<open>PI\<close> is a macro of \<open>Flax/Common.hlsl\<close>, which is not among the
  sources at hand; the spec multiplies by \<open>2\<pi>\<close>.
\<close>

definition PI :: float where
  "PI = pi"


definition DDGI_PROBE_STATE_INACTIVE :: float where
  "DDGI_PROBE_STATE_INACTIVE = 1"

definition DDGI_PROBE_RESOLUTION_IRRADIANCE :: uint where
  "DDGI_PROBE_RESOLUTION_IRRADIANCE = 6"

definition DDGI_PROBE_RESOLUTION_DISTANCE :: uint where
  "DDGI_PROBE_RESOLUTION_DISTANCE = 14"

definition DDGI_SRGB_BLENDING :: bool where
  "DDGI_SRGB_BLENDING = True"

text \<open>
  A read-only \<open>Texture2D<float4>\<close>: \<open>Load\<close> fetches the texel at integer coordinates of
  mip 0, \<open>SampleLevel\<close> is the filtered lookup with \<open>SamplerLinearClamp\<close> at mip 0.
\<close>

record Texture2D =
  Load :: "int \<times> int \<Rightarrow> float vec4"
  SampleLevel :: "float vec2 \<Rightarrow> float vec4"

section \<open>Probe positions and atlas coordinates\<close>

definition GetDDGIProbeWorldPosition :: "DDGIData \<Rightarrow> uint \<Rightarrow> uint vec3 \<Rightarrow> float vec3" where
  "GetDDGIProbeWorldPosition data cascadeIndex probeCoords =
     (let probesOrigin = xyz (ProbesOriginAndSpacing data ! unat cascadeIndex);
          probesSpacing = w4 (ProbesOriginAndSpacing data ! unat cascadeIndex);
          probePosition = map_vec3 (\<lambda>c. uint_to_float c * probesSpacing) probeCoords;
          probeGridOffset =
            map_vec3 (\<lambda>n. (probesSpacing * uint_to_float (n - 1)) * 0.5) (ProbesCounts data)
      in zip3 (+) (zip3 (-) (zip3 (+) probesOrigin probePosition) probeGridOffset)
           (map_vec3 (\<lambda>s. int_to_float s * probesSpacing)
              (xyz (ProbesScrollOffsets data ! unat cascadeIndex))))"

definition GetDDGIProbeUV ::
  "DDGIData \<Rightarrow> uint \<Rightarrow> uint \<Rightarrow> float vec2 \<Rightarrow> uint \<Rightarrow> float vec2" where
  "GetDDGIProbeUV data cascadeIndex probeIndex octahedralCoords resolution =
     (let coords = GetDDGIProbeTexelCoords data cascadeIndex probeIndex;
          probeTexelSize = uint_to_float resolution + 2;
          textureSize =
            Vec2 (uint_to_float (x3 (ProbesCounts data) * y3 (ProbesCounts data)) * probeTexelSize)
                 (uint_to_float (z3 (ProbesCounts data) * CascadesCount data) * probeTexelSize);
          uv = Vec2 (uint_to_float (x2 coords) * probeTexelSize + probeTexelSize * 0.5)
                    (uint_to_float (y2 coords) * probeTexelSize + probeTexelSize * 0.5);
          uv' = Vec2 (x2 uv + x2 octahedralCoords * (uint_to_float resolution * 0.5))
                     (y2 uv + y2 octahedralCoords * (uint_to_float resolution * 0.5))
      in Vec2 (x2 uv' / x2 textureSize) (y2 uv' / y2 textureSize))"

section \<open>Cascade selection\<close>

text \<open>The locals \<open>probesSpacing\<close>, \<open>probesOrigin\<close> and \<open>probesExtent\<close> of a cascade.\<close>

definition probesSpacing :: "DDGIData \<Rightarrow> uint \<Rightarrow> float" where
  "probesSpacing data cascadeIndex = w4 (ProbesOriginAndSpacing data ! unat cascadeIndex)"

definition probesOrigin :: "DDGIData \<Rightarrow> uint \<Rightarrow> float vec3" where
  "probesOrigin data cascadeIndex =
     zip3 (+)
       (map_vec3 (\<lambda>s. int_to_float s * probesSpacing data cascadeIndex)
          (xyz (ProbesScrollOffsets data ! unat cascadeIndex)))
       (xyz (ProbesOriginAndSpacing data ! unat cascadeIndex))"

definition probesExtent :: "DDGIData \<Rightarrow> uint \<Rightarrow> float vec3" where
  "probesExtent data cascadeIndex =
     map_vec3 (\<lambda>n. uint_to_float (n - 1) * (probesSpacing data cascadeIndex * 0.5))
       (ProbesCounts data)"

text \<open>The body of the cascade loop up to the comparison with the dither value.\<close>

definition cascadeWeight :: "DDGIData \<Rightarrow> uint \<Rightarrow> float vec3 \<Rightarrow> float" where
  "cascadeWeight data cascadeIndex worldPosition =
     (let fadeDistance = probesSpacing data cascadeIndex * 0.5
      in saturate
           (Min3 (zip3 (-) (probesExtent data cascadeIndex)
                    (map_vec3 abs (zip3 (-) worldPosition (probesOrigin data cascadeIndex))))
            / fadeDistance))"

text \<open>
  The loop \<open>for (; cascadeIndex < data.CascadesCount; cascadeIndex++)\<close> with its
  \<open>break\<close>; the result is the value of \<open>cascadeIndex\<close> after the loop.
\<close>

function selectCascade :: "DDGIData \<Rightarrow> float vec3 \<Rightarrow> float \<Rightarrow> uint \<Rightarrow> uint" where
  "selectCascade data worldPosition dither cascadeIndex =
     (if cascadeIndex < CascadesCount data
      then (if cascadeWeight data cascadeIndex worldPosition > dither
            then cascadeIndex
            else selectCascade data worldPosition dither (cascadeIndex + 1))
      else cascadeIndex)"
  by pat_completeness auto
termination
proof (relation "measure (\<lambda>(data, worldPosition, dither, cascadeIndex).
                   unat (CascadesCount data) - unat cascadeIndex)")
  show "wf (measure (\<lambda>(data, worldPosition, dither, cascadeIndex).
                   unat (CascadesCount data) - unat cascadeIndex))"
    by simp
next
  fix data :: DDGIData and worldPosition :: "float vec3" and dither :: float
    and cascadeIndex :: uint
  assume less: "cascadeIndex < CascadesCount data"
  then have lt: "unat cascadeIndex < unat (CascadesCount data)"
    by (simp add: word_less_nat_alt)
  have "unat (CascadesCount data) < 2 ^ 32"
    using unsigned_less [of "CascadesCount data", where 'a = nat] by simp
  with lt have "unat cascadeIndex + unat (1 :: uint) < 2 ^ LENGTH(32)"
    by simp
  then have "unat (cascadeIndex + 1) = unat cascadeIndex + unat (1 :: uint)"
    by (simp only: unat_add_lem)
  with lt show "((data, worldPosition, dither, cascadeIndex + 1),
                 (data, worldPosition, dither, cascadeIndex))
         \<in> measure (\<lambda>(data, worldPosition, dither, cascadeIndex).
                   unat (CascadesCount data) - unat cascadeIndex)"
    by simp
qed

section \<open>Sampling the probes volume\<close>

text \<open>
  \<open>GetOctahedralCoords\<close> is declared in \<open>Flax/Octahedral.hlsl\<close>, outside the sources at
  hand; the sampling functions take it as the parameter \<open>oct\<close>.
\<close>

type_synonym octahedral = "float vec3 \<Rightarrow> float vec2"

text \<open>The locals computed between the two loops of \<open>SampleDDGIIrradiance\<close>.\<close>

definition surfaceBias :: "DDGIData \<Rightarrow> float vec3 \<Rightarrow> float \<Rightarrow> float vec3" where
  "surfaceBias data worldNormal bias =
     zip3 (+) (map_vec3 (\<lambda>c. c * bias) worldNormal)
              (map_vec3 (\<lambda>c. c * (bias * - 4)) (ViewDir data))"

definition biasedWorldPosition ::
  "DDGIData \<Rightarrow> float vec3 \<Rightarrow> float vec3 \<Rightarrow> float \<Rightarrow> float vec3" where
  "biasedWorldPosition data worldPosition worldNormal bias =
     zip3 (+) worldPosition (surfaceBias data worldNormal bias)"

definition baseProbeCoords :: "DDGIData \<Rightarrow> uint \<Rightarrow> float vec3 \<Rightarrow> uint vec3" where
  "baseProbeCoords data cascadeIndex worldPosition =
     zip3 (\<lambda>c n. clamp_uint c 0 (n - 1))
       (map_vec3 (\<lambda>c. float_to_uint (c / probesSpacing data cascadeIndex))
          (zip3 (+) (zip3 (-) worldPosition (probesOrigin data cascadeIndex))
                    (probesExtent data cascadeIndex)))
       (ProbesCounts data)"

definition biasAlpha ::
  "DDGIData \<Rightarrow> uint \<Rightarrow> float vec3 \<Rightarrow> float vec3 \<Rightarrow> float \<Rightarrow> float vec3" where
  "biasAlpha data cascadeIndex worldPosition worldNormal bias =
     (let baseProbeWorldPosition =
            GetDDGIProbeWorldPosition data cascadeIndex
              (baseProbeCoords data cascadeIndex worldPosition)
      in map_vec3 (\<lambda>c. saturate (c / probesSpacing data cascadeIndex))
           (zip3 (-) (biasedWorldPosition data worldPosition worldNormal bias)
                     baseProbeWorldPosition))"

text \<open>The locals at the head of the loop over the eight closest probes.\<close>

definition probeCoordsOffset :: "uint \<Rightarrow> uint vec3" where
  "probeCoordsOffset i = map_vec3 (\<lambda>c. c AND 1) (Vec3 i (drop_bit 1 i) (drop_bit 2 i))"

definition cornerProbeCoords :: "DDGIData \<Rightarrow> uint vec3 \<Rightarrow> uint \<Rightarrow> uint vec3" where
  "cornerProbeCoords data base i =
     zip3 (\<lambda>c n. clamp_uint c 0 (n - 1)) (zip3 (+) base (probeCoordsOffset i))
       (ProbesCounts data)"

definition loadProbeState :: "DDGIData \<Rightarrow> Texture2D \<Rightarrow> uint \<Rightarrow> uint \<Rightarrow> float vec4" where
  "loadProbeState data probesState cascadeIndex probeIndex =
     (let texel = GetDDGIProbeTexelCoords data cascadeIndex probeIndex
      in Load probesState (sint (x2 texel), sint (y2 texel)))"

definition probeBasePosition :: "DDGIData \<Rightarrow> uint \<Rightarrow> uint vec3 \<Rightarrow> uint vec3 \<Rightarrow> float vec3" where
  "probeBasePosition data cascadeIndex base probeCoords =
     zip3 (+) (GetDDGIProbeWorldPosition data cascadeIndex base)
       (map_vec3 (\<lambda>c. uint_to_float c * probesSpacing data cascadeIndex)
          (zip3 (-) probeCoords base))"

text \<open>The stages of the weight of one probe, in the order of the source.\<close>

definition backfaceWeight :: "float vec3 \<Rightarrow> float vec3 \<Rightarrow> float" where
  "backfaceWeight worldPosToProbe worldNormal =
     Square (dot3 worldPosToProbe worldNormal * 0.5 + 0.5)"

definition visibilityWeight :: "float \<Rightarrow> float \<Rightarrow> float vec4 \<Rightarrow> float" where
  "visibilityWeight weight biasedPosToProbeDist distanceSample =
     (let probeDistance = Vec2 (x4 distanceSample * 2) (y4 distanceSample * 2);
          probeDistanceMean = x2 probeDistance;
          probeDistanceMean2 = y2 probeDistance
      in if biasedPosToProbeDist > probeDistanceMean
         then (let probeDistanceVariance = \<bar>Square probeDistanceMean - probeDistanceMean2\<bar>;
                   chebyshevWeight =
                     probeDistanceVariance /
                       (probeDistanceVariance + Square (biasedPosToProbeDist - probeDistanceMean))
               in weight * max (chebyshevWeight * chebyshevWeight * chebyshevWeight) 0.05)
         else weight)"

definition adjustWeight :: "float \<Rightarrow> float" where
  "adjustWeight weight =
     (let weight' = max weight 0.000001;
          minWeightThreshold = 0.2
      in if weight' < minWeightThreshold
         then weight' * (Square weight' * (1 / (minWeightThreshold * minWeightThreshold)))
         else weight')"

definition trilinearWeight :: "float \<Rightarrow> float vec3 \<Rightarrow> uint vec3 \<Rightarrow> float" where
  "trilinearWeight weight alpha offset =
     (let trilinear = zip3 (\<lambda>a s. lerp (1 - a) a (uint_to_float s)) alpha offset
      in weight * max (x3 trilinear * y3 trilinear * z3 trilinear) 0.001)"

definition probeWeight ::
  "octahedral \<Rightarrow> DDGIData \<Rightarrow> Texture2D \<Rightarrow> uint \<Rightarrow> uint \<Rightarrow> float vec3 \<Rightarrow> float vec3 \<Rightarrow>
   float vec3 \<Rightarrow> float vec3 \<Rightarrow> float vec3 \<Rightarrow> uint vec3 \<Rightarrow> float" where
  "probeWeight oct data probesDistance cascadeIndex probeIndex worldPosition worldNormal
     biasedPosition alpha probePosition offset =
     (let worldPosToProbe = normalize3 (zip3 (-) probePosition worldPosition);
          biasedPosToProbe = normalize3 (zip3 (-) probePosition biasedPosition);
          biasedPosToProbeDist = length3 (zip3 (-) probePosition biasedPosition);
          weight0 = backfaceWeight worldPosToProbe worldNormal;
          octahedralCoords = oct (map_vec3 uminus biasedPosToProbe);
          uv = GetDDGIProbeUV data cascadeIndex probeIndex octahedralCoords
                 DDGI_PROBE_RESOLUTION_DISTANCE;
          weight1 = visibilityWeight weight0 biasedPosToProbeDist (SampleLevel probesDistance uv);
          weight2 = adjustWeight weight1
      in trilinearWeight weight2 alpha offset)"

text \<open>
  One iteration of the loop over the eight closest probes: the accumulator
  \<open>irradiance\<close> is returned unchanged for an inactive probe (\<open>continue\<close>).
\<close>

definition cornerStep ::
  "octahedral \<Rightarrow> DDGIData \<Rightarrow> Texture2D \<Rightarrow> Texture2D \<Rightarrow> Texture2D \<Rightarrow> float vec3 \<Rightarrow>
   float vec3 \<Rightarrow> float \<Rightarrow> uint \<Rightarrow> uint \<Rightarrow> float vec4 \<Rightarrow> float vec4" where
  "cornerStep oct data probesState probesDistance probesIrradiance worldPosition worldNormal
     bias cascadeIndex i irradiance =
     (let base = baseProbeCoords data cascadeIndex worldPosition;
          offset = probeCoordsOffset i;
          probeCoords = cornerProbeCoords data base i;
          probeIndex = GetDDGIScrollingProbeIndex data cascadeIndex probeCoords;
          probeState = loadProbeState data probesState cascadeIndex probeIndex
      in if w4 probeState = DDGI_PROBE_STATE_INACTIVE then irradiance
         else
           (let probePosition =
                  zip3 (+) (probeBasePosition data cascadeIndex base probeCoords) (xyz probeState);
                weight =
                  probeWeight oct data probesDistance cascadeIndex probeIndex worldPosition
                    worldNormal (biasedWorldPosition data worldPosition worldNormal bias)
                    (biasAlpha data cascadeIndex worldPosition worldNormal bias)
                    probePosition offset;
                octahedralCoords = oct worldNormal;
                uv = GetDDGIProbeUV data cascadeIndex probeIndex octahedralCoords
                       DDGI_PROBE_RESOLUTION_IRRADIANCE;
                probeIrradiance = xyz (SampleLevel probesIrradiance uv);
                probeIrradiance' =
                  (if DDGI_SRGB_BLENDING
                   then map_vec3 (\<lambda>c. pow c (IrradianceGamma data * 0.5)) probeIrradiance
                   else probeIrradiance)
            in Vec4 (x4 irradiance + x3 probeIrradiance' * weight)
                    (y4 irradiance + y3 probeIrradiance' * weight)
                    (z4 irradiance + z3 probeIrradiance' * weight)
                    (w4 irradiance + weight)))"

text \<open>The loop \<open>for (uint i = 0; i < 8; i++)\<close>.\<close>

function cornerLoop ::
  "octahedral \<Rightarrow> DDGIData \<Rightarrow> Texture2D \<Rightarrow> Texture2D \<Rightarrow> Texture2D \<Rightarrow> float vec3 \<Rightarrow>
   float vec3 \<Rightarrow> float \<Rightarrow> uint \<Rightarrow> uint \<Rightarrow> float vec4 \<Rightarrow> float vec4" where
  "cornerLoop oct data probesState probesDistance probesIrradiance worldPosition worldNormal
     bias cascadeIndex i irradiance =
     (if i < 8
      then cornerLoop oct data probesState probesDistance probesIrradiance worldPosition
             worldNormal bias cascadeIndex (i + 1)
             (cornerStep oct data probesState probesDistance probesIrradiance worldPosition
                worldNormal bias cascadeIndex i irradiance)
      else irradiance)"
  by pat_completeness auto
termination
proof (relation "measure (\<lambda>(oct, data, probesState, probesDistance, probesIrradiance,
                   worldPosition, worldNormal, bias, cascadeIndex, i, irradiance). 8 - unat i)")
  show "wf (measure (\<lambda>(oct, data, probesState, probesDistance, probesIrradiance,
                   worldPosition, worldNormal, bias, cascadeIndex, i, irradiance). 8 - unat i))"
    by simp
next
  fix oct :: octahedral and data :: DDGIData
    and probesState probesDistance probesIrradiance :: Texture2D
    and worldPosition worldNormal :: "float vec3" and bias :: float
    and cascadeIndex i :: uint and irradiance :: "float vec4"
  assume "i < 8"
  then have lt: "unat i < 8"
    by (simp add: word_less_nat_alt)
  then have "unat i + unat (1 :: uint) < 2 ^ LENGTH(32)"
    by simp
  then have "unat (i + 1) = unat i + unat (1 :: uint)"
    by (simp only: unat_add_lem)
  with lt show "((oct, data, probesState, probesDistance, probesIrradiance, worldPosition,
                  worldNormal, bias, cascadeIndex, i + 1,
                  cornerStep oct data probesState probesDistance probesIrradiance worldPosition
                    worldNormal bias cascadeIndex i irradiance),
                 (oct, data, probesState, probesDistance, probesIrradiance, worldPosition,
                  worldNormal, bias, cascadeIndex, i, irradiance))
         \<in> measure (\<lambda>(oct, data, probesState, probesDistance, probesIrradiance,
                   worldPosition, worldNormal, bias, cascadeIndex, i, irradiance). 8 - unat i)"
    by simp
qed

text \<open>
  The defining equations of the two loops are unfolded one iteration at a time, by hand.
\<close>

declare selectCascade.simps [simp del] cornerLoop.simps [simp del]

text \<open>The normalisation after the loop.\<close>

definition normalizeIrradiance :: "float vec4 \<Rightarrow> float vec3" where
  "normalizeIrradiance irradiance =
     (if w4 irradiance > 0
      then (let rgb = map_vec3 (\<lambda>c. c * (1 / w4 irradiance)) (xyz irradiance);
                rgb' = (if DDGI_SRGB_BLENDING then zip3 (*) rgb rgb else rgb)
            in map_vec3 (\<lambda>c. c * (2 * PI)) rgb')
      else xyz irradiance)"

definition SampleDDGIIrradiance ::
  "octahedral \<Rightarrow> DDGIData \<Rightarrow> Texture2D \<Rightarrow> Texture2D \<Rightarrow> Texture2D \<Rightarrow> float vec3 \<Rightarrow>
   float vec3 \<Rightarrow> float \<Rightarrow> float \<Rightarrow> float vec3" where
  "SampleDDGIIrradiance oct data probesState probesDistance probesIrradiance worldPosition
     worldNormal bias dither =
     (let cascadeIndex = selectCascade data worldPosition dither 0
      in if cascadeIndex = CascadesCount data then FallbackIrradiance data
         else normalizeIrradiance
                (cornerLoop oct data probesState probesDistance probesIrradiance worldPosition
                   worldNormal bias cascadeIndex 0 (Vec4 0 0 0 0)))"

section \<open>Binary32 rounding\<close>

text \<open>
  The shader computes in IEEE 754 binary32.  Where a statement turns on the rounding, the
  operations are modelled with it: \<open>float32\<close> rounds a real number to the nearest
  binary32 value, ties to even, with the subnormal grid below \<open>2^-126\<close>; overflow to
  infinity is not represented.  Every operation of the source rounds its exact result
  once, in the order in which the source writes the operations (no multiplication and
  addition are fused), and the conversion of an integer rounds as well.
\<close>

definition pow2 :: "int \<Rightarrow> real" where
  "pow2 e = (if 0 \<le> e then 2 ^ nat e else 1 / 2 ^ nat (- e))"

definition round_ties_even :: "real \<Rightarrow> int" where
  "round_ties_even y =
     (let f = \<lfloor>y\<rfloor>
      in if y - of_int f < 1 / 2 then f
         else if 1 / 2 < y - of_int f then f + 1
         else if even f then f else f + 1)"

definition binade :: "real \<Rightarrow> int" where
  "binade x = max (- 126) \<lfloor>log 2 \<bar>x\<bar>\<rfloor>"

definition float32 :: "real \<Rightarrow> real" where
  "float32 x =
     (if x = 0 then 0
      else of_int (round_ties_even (x / pow2 (binade x - 23))) * pow2 (binade x - 23))"

definition fadd :: "float \<Rightarrow> float \<Rightarrow> float" where
  "fadd a b = float32 (a + b)"

definition fsub :: "float \<Rightarrow> float \<Rightarrow> float" where
  "fsub a b = float32 (a - b)"

definition fmul :: "float \<Rightarrow> float \<Rightarrow> float" where
  "fmul a b = float32 (a * b)"

definition fdiv :: "float \<Rightarrow> float \<Rightarrow> float" where
  "fdiv a b = float32 (a / b)"

definition uint_to_float32 :: "uint \<Rightarrow> float" where
  "uint_to_float32 u = float32 (uint_to_float u)"

definition int_to_float32 :: "int32 \<Rightarrow> float" where
  "int_to_float32 i = float32 (int_to_float i)"

text \<open>\<open>GetDDGIProbeWorldPosition\<close> and the position of the corner loop, with binary32 rounding.\<close>

definition GetDDGIProbeWorldPosition_f32 :: "DDGIData \<Rightarrow> uint \<Rightarrow> uint vec3 \<Rightarrow> float vec3" where
  "GetDDGIProbeWorldPosition_f32 data cascadeIndex probeCoords =
     (let probesOrigin = xyz (ProbesOriginAndSpacing data ! unat cascadeIndex);
          probesSpacing = w4 (ProbesOriginAndSpacing data ! unat cascadeIndex);
          probePosition = map_vec3 (\<lambda>c. fmul (uint_to_float32 c) probesSpacing) probeCoords;
          probeGridOffset =
            map_vec3 (\<lambda>n. fmul (fmul probesSpacing (uint_to_float32 (n - 1))) 0.5)
              (ProbesCounts data)
      in zip3 fadd (zip3 fsub (zip3 fadd probesOrigin probePosition) probeGridOffset)
           (map_vec3 (\<lambda>s. fmul (int_to_float32 s) probesSpacing)
              (xyz (ProbesScrollOffsets data ! unat cascadeIndex))))"

definition probeBasePosition_f32 :: "DDGIData \<Rightarrow> uint \<Rightarrow> uint vec3 \<Rightarrow> uint vec3 \<Rightarrow> float vec3" where
  "probeBasePosition_f32 data cascadeIndex base probeCoords =
     zip3 fadd (GetDDGIProbeWorldPosition_f32 data cascadeIndex base)
       (map_vec3 (\<lambda>c. fmul (uint_to_float32 c) (probesSpacing data cascadeIndex))
          (zip3 (-) probeCoords base))"

text \<open>\<open>GetDDGIProbeUV\<close> with binary32 rounding.\<close>

definition GetDDGIProbeUV_f32 ::
  "DDGIData \<Rightarrow> uint \<Rightarrow> uint \<Rightarrow> float vec2 \<Rightarrow> uint \<Rightarrow> float vec2" where
  "GetDDGIProbeUV_f32 data cascadeIndex probeIndex octahedralCoords resolution =
     (let coords = GetDDGIProbeTexelCoords data cascadeIndex probeIndex;
          probeTexelSize = fadd (uint_to_float32 resolution) 2;
          textureSize =
            Vec2 (fmul (uint_to_float32 (x3 (ProbesCounts data) * y3 (ProbesCounts data)))
                    probeTexelSize)
                 (fmul (uint_to_float32 (z3 (ProbesCounts data) * CascadesCount data))
                    probeTexelSize);
          uv = Vec2 (fadd (fmul (uint_to_float32 (x2 coords)) probeTexelSize)
                       (fmul probeTexelSize 0.5))
                    (fadd (fmul (uint_to_float32 (y2 coords)) probeTexelSize)
                       (fmul probeTexelSize 0.5));
          uv' = Vec2 (fadd (x2 uv)
                        (fmul (x2 octahedralCoords) (fmul (uint_to_float32 resolution) 0.5)))
                     (fadd (y2 uv)
                        (fmul (y2 octahedralCoords) (fmul (uint_to_float32 resolution) 0.5)))
      in Vec2 (fdiv (x2 uv') (x2 textureSize)) (fdiv (y2 uv') (y2 textureSize)))"

section \<open>Well-formed grids and reference formulas\<close>

text \<open>
  A grid is well formed when every axis holds at least one probe and the number of
  probes \<open>X * Y * Z\<close> fits into 32 bits, so that no product of the addressing functions
  wraps around.
\<close>

definition counts_ok :: "DDGIData \<Rightarrow> bool" where
  "counts_ok data \<longleftrightarrow>
     x3 (ProbesCounts data) \<noteq> 0 \<and> y3 (ProbesCounts data) \<noteq> 0 \<and> z3 (ProbesCounts data) \<noteq> 0 \<and>
     unat (x3 (ProbesCounts data)) * unat (y3 (ProbesCounts data)) * unat (z3 (ProbesCounts data))
       < 2 ^ 32"

text \<open>
  The mathematical modulus of a scrolled coordinate: coordinate and count read as
  natural numbers, the scroll offset as a signed integer.
\<close>

definition wrapCoord :: "uint \<Rightarrow> int32 \<Rightarrow> uint \<Rightarrow> uint" where
  "wrapCoord c s n = word_of_int ((uint c + sint s) mod uint n)"

definition scrolledCoords :: "DDGIData \<Rightarrow> uint \<Rightarrow> uint vec3 \<Rightarrow> uint vec3" where
  "scrolledCoords data cascadeIndex probeCoords =
     (let s = xyz (ProbesScrollOffsets data ! unat cascadeIndex); n = ProbesCounts data
      in Vec3 (wrapCoord (x3 probeCoords) (x3 s) (x3 n))
              (wrapCoord (y3 probeCoords) (y3 s) (y3 n))
              (wrapCoord (z3 probeCoords) (z3 s) (z3 n)))"

text \<open>
  The scroll offset is at least \<open>- count\<close>, and the sum
  \<open>coordinate + offset + count\<close> stays below \<open>2^32\<close>.
\<close>

definition noWrap :: "uint \<Rightarrow> int32 \<Rightarrow> uint \<Rightarrow> bool" where
  "noWrap c s n \<longleftrightarrow> - uint n \<le> sint s \<and> uint c + sint s + uint n < 2 ^ 32"

definition noWrap3 :: "DDGIData \<Rightarrow> uint \<Rightarrow> uint vec3 \<Rightarrow> bool" where
  "noWrap3 data cascadeIndex probeCoords =
     (let s = xyz (ProbesScrollOffsets data ! unat cascadeIndex); n = ProbesCounts data
      in noWrap (x3 probeCoords) (x3 s) (x3 n) \<and>
         noWrap (y3 probeCoords) (y3 s) (y3 n) \<and>
         noWrap (z3 probeCoords) (z3 s) (z3 n))"

text \<open>
  The corner probe of iteration \<open>i\<close>: its flat index and the state texel loaded for it.
\<close>

definition cornerProbeIndex :: "DDGIData \<Rightarrow> uint \<Rightarrow> float vec3 \<Rightarrow> uint \<Rightarrow> uint" where
  "cornerProbeIndex data cascadeIndex worldPosition i =
     GetDDGIScrollingProbeIndex data cascadeIndex
       (cornerProbeCoords data (baseProbeCoords data cascadeIndex worldPosition) i)"

definition cornerProbeState ::
  "DDGIData \<Rightarrow> Texture2D \<Rightarrow> uint \<Rightarrow> float vec3 \<Rightarrow> uint \<Rightarrow> float vec4" where
  "cornerProbeState data probesState cascadeIndex worldPosition i =
     loadProbeState data probesState cascadeIndex
       (cornerProbeIndex data cascadeIndex worldPosition i)"

text \<open>The position of the corner probe of iteration \<open>i\<close>, relocation included.\<close>

definition cornerProbePosition ::
  "DDGIData \<Rightarrow> Texture2D \<Rightarrow> uint \<Rightarrow> float vec3 \<Rightarrow> uint \<Rightarrow> float vec3" where
  "cornerProbePosition data probesState cascadeIndex worldPosition i =
     zip3 (+)
       (probeBasePosition data cascadeIndex (baseProbeCoords data cascadeIndex worldPosition)
          (cornerProbeCoords data (baseProbeCoords data cascadeIndex worldPosition) i))
       (xyz (cornerProbeState data probesState cascadeIndex worldPosition i))"

text \<open>
  The visibility factor in the words of the spec: \<open>variance = |mean\<^sup>2 - meanSquare|\<close>,
  \<open>chebyshev = variance / (variance + (d - mean)\<^sup>2)\<close>, factor \<open>max(chebyshev\<^sup>3, 0.05)\<close>.
\<close>

definition visibilityFactor :: "float \<Rightarrow> float \<Rightarrow> float \<Rightarrow> float" where
  "visibilityFactor d mean meanSquare =
     (let variance = \<bar>mean\<^sup>2 - meanSquare\<bar>;
          chebyshev = variance / (variance + (d - mean)\<^sup>2)
      in max (chebyshev ^ 3) 0.05)"

text \<open>A vector of interpolation fractions, each inside \<open>[0, 1]\<close>.\<close>

definition in_unit :: "float vec3 \<Rightarrow> bool" where
  "in_unit v \<longleftrightarrow>
     0 \<le> x3 v \<and> x3 v \<le> 1 \<and> 0 \<le> y3 v \<and> y3 v \<le> 1 \<and> 0 \<le> z3 v \<and> z3 v \<le> 1"

text \<open>
  The fade weight in the words of the spec, for a grid origin, a spacing and the probe
  counts: \<open>extent = 0.5 * spacing * (counts - 1)\<close>, \<open>fadeDistance = 0.5 * spacing\<close>,
  \<open>weight = clamp(min-over-axes(extent - |worldPos - origin|) / fadeDistance, 0, 1)\<close>.
\<close>

definition fadeWeight :: "float vec3 \<Rightarrow> float \<Rightarrow> uint vec3 \<Rightarrow> float vec3 \<Rightarrow> float" where
  "fadeWeight origin spacing counts worldPos =
     (let extent = map_vec3 (\<lambda>n. 0.5 * spacing * (real (unat n) - 1)) counts;
          fadeDistance = 0.5 * spacing
      in min (max (Min3 (zip3 (-) extent (map_vec3 abs (zip3 (-) worldPos origin)))
                     / fadeDistance) 0) 1)"

text \<open>The fade weight around the configured origin of the cascade.\<close>

definition statedFadeWeight :: "DDGIData \<Rightarrow> uint \<Rightarrow> float vec3 \<Rightarrow> float" where
  "statedFadeWeight data cascadeIndex worldPos =
     fadeWeight (xyz (ProbesOriginAndSpacing data ! unat cascadeIndex))
       (w4 (ProbesOriginAndSpacing data ! unat cascadeIndex)) (ProbesCounts data) worldPos"

text \<open>The configured origin displaced by \<open>scrollOffset * spacing\<close>, and the fade weight around it.\<close>

definition scrolledOrigin :: "DDGIData \<Rightarrow> uint \<Rightarrow> float vec3" where
  "scrolledOrigin data cascadeIndex =
     zip3 (\<lambda>c s. c + real_of_int (sint s) * w4 (ProbesOriginAndSpacing data ! unat cascadeIndex))
       (xyz (ProbesOriginAndSpacing data ! unat cascadeIndex))
       (xyz (ProbesScrollOffsets data ! unat cascadeIndex))"

definition scrolledFadeWeight :: "DDGIData \<Rightarrow> uint \<Rightarrow> float vec3 \<Rightarrow> float" where
  "scrolledFadeWeight data cascadeIndex worldPos =
     fadeWeight (scrolledOrigin data cascadeIndex)
       (w4 (ProbesOriginAndSpacing data ! unat cascadeIndex)) (ProbesCounts data) worldPos"

text \<open>Configurations with at least one probe per axis, and with one to four cascades.\<close>

definition counts_positive :: "DDGIData \<Rightarrow> bool" where
  "counts_positive data \<longleftrightarrow>
     x3 (ProbesCounts data) \<noteq> 0 \<and> y3 (ProbesCounts data) \<noteq> 0 \<and> z3 (ProbesCounts data) \<noteq> 0"

definition cascades_ok :: "DDGIData \<Rightarrow> bool" where
  "cascades_ok data \<longleftrightarrow>
     1 \<le> CascadesCount data \<and> CascadesCount data \<le> 4 \<and>
     length (ProbesOriginAndSpacing data) = 4 \<and> length (ProbesScrollOffsets data) = 4"

text \<open>
  The base probe coordinate in the words of the spec, for a grid origin:
  \<open>clamp(floor((worldPos - origin + extent) / spacing), 0, counts - 1)\<close> with
  \<open>extent = 0.5 * spacing * (counts - 1)\<close>; \<open>gridQuotient\<close> is the quotient before the
  floor.
\<close>

definition gridQuotient :: "float vec3 \<Rightarrow> float \<Rightarrow> uint vec3 \<Rightarrow> float vec3 \<Rightarrow> float vec3" where
  "gridQuotient origin spacing counts worldPos =
     (let extent = map_vec3 (\<lambda>n. 0.5 * spacing * (real (unat n) - 1)) counts
      in map_vec3 (\<lambda>p. p / spacing) (zip3 (+) (zip3 (-) worldPos origin) extent))"

definition specBaseCoords :: "float vec3 \<Rightarrow> float \<Rightarrow> uint vec3 \<Rightarrow> float vec3 \<Rightarrow> int vec3" where
  "specBaseCoords origin spacing counts worldPos =
     zip3 (\<lambda>q n. min (max \<lfloor>q\<rfloor> 0) (uint n - 1))
       (gridQuotient origin spacing counts worldPos) counts"

text \<open>
  The atlas in pixels, \<open>(X * Y, Z * cascadesCount) * (resolution + 2)\<close>, and the interior
  of the block of a probe along one axis: a pixel coordinate \<open>p\<close> lies strictly inside
  the block \<open>[block * blockSize, (block + 1) * blockSize]\<close> and in neither of its two
  border strips of width one texel.
\<close>

definition atlasPixelSize :: "DDGIData \<Rightarrow> uint \<Rightarrow> float vec2" where
  "atlasPixelSize data resolution =
     Vec2 (real (unat (x3 (ProbesCounts data)) * unat (y3 (ProbesCounts data))) *
             (real (unat resolution) + 2))
          (real (unat (z3 (ProbesCounts data)) * unat (CascadesCount data)) *
             (real (unat resolution) + 2))"

definition insideBlockInterior :: "nat \<Rightarrow> float \<Rightarrow> float \<Rightarrow> bool" where
  "insideBlockInterior block blockSize p \<longleftrightarrow>
     real block * blockSize < p \<and> p < (real block + 1) * blockSize \<and>
     real block * blockSize + 1 \<le> p \<and> p \<le> (real block + 1) * blockSize - 1"



section \<open>Example configurations\<close>

text \<open>
  A configuration with one cascade; all four array slots hold the same origin, spacing
  and scroll offset.
\<close>

definition grid_data :: "uint vec3 \<Rightarrow> float vec4 \<Rightarrow> int32 vec4 \<Rightarrow> DDGIData" where
  "grid_data counts originAndSpacing scroll =
     \<lparr> ProbesOriginAndSpacing = replicate 4 originAndSpacing,
       ProbesScrollOffsets = replicate 4 scroll,
       ProbeScrollDirections = replicate 4 (Vec4 0 0 0 0),
       ProbesCounts = counts,
       CascadesCount = 1,
       IrradianceGamma = 1,
       ProbeHistoryWeight = 0,
       RayMaxDistance = 0,
       IndirectLightingIntensity = 1,
       RaysRotation = Vec4 0 0 0 1,
       ViewDir = Vec3 0 0 1,
       RaysCount = 0,
       FallbackIrradiance = Vec3 1 2 3,
       Padding0 = 0 \<rparr>"

definition small_grid :: DDGIData where
  "small_grid = grid_data (Vec3 4 3 2) (Vec4 0 0 0 1) (Vec4 (- 1) 2 (- 2) 0)"

definition overflow_grid :: DDGIData where
  "overflow_grid = grid_data (Vec3 3 1 0x80000000) (Vec4 0 0 0 1) (Vec4 0 0 0 0)"

definition wide_grid :: DDGIData where
  "wide_grid = grid_data (Vec3 0x80000001 1 1) (Vec4 0 0 0 1) (Vec4 0x7FFFFFFF 0 0 0)"

text \<open>
  The grid of \<open>2 x 2 x 2\<close> probes with spacing \<open>2\<close> around the origin; the same grid
  scrolled by five cells along x; a grid of \<open>4 x 4 x 4\<close> probes scrolled by one cell
  along x; and a configuration with an inner cascade of spacing
  \<open>2\<close> and an outer cascade of spacing \<open>8\<close>.
\<close>

definition cube_grid :: DDGIData where
  "cube_grid = grid_data (Vec3 2 2 2) (Vec4 0 0 0 2) (Vec4 0 0 0 0)"

definition shifted_grid :: DDGIData where
  "shifted_grid = grid_data (Vec3 2 2 2) (Vec4 0 0 0 2) (Vec4 5 0 0 0)"

definition shifted4_grid :: DDGIData where
  "shifted4_grid = grid_data (Vec3 4 4 4) (Vec4 0 0 0 2) (Vec4 1 0 0 0)"

definition two_cascades :: DDGIData where
  "two_cascades = cube_grid
     \<lparr> ProbesOriginAndSpacing := [Vec4 0 0 0 2, Vec4 0 0 0 8, Vec4 0 0 0 8, Vec4 0 0 0 8],
       CascadesCount := 2 \<rparr>"

text \<open>
  A grid of \<open>8 x 8 x 8\<close> probes whose origin and spacing are the binary32 values nearest
  to \<open>0.3\<close> and \<open>1.7\<close>; a grid whose atlas width \<open>X * Y\<close> exceeds 32 bits; and the cube
  grid with \<open>IrradianceGamma = 2\<close>.
\<close>

definition rounding_grid :: DDGIData where
  "rounding_grid =
     grid_data (Vec3 8 8 8)
       (Vec4 (5033165 / 16777216) (5033165 / 16777216) (5033165 / 16777216) (7130317 / 4194304))
       (Vec4 0 0 0 0)"

definition wide_atlas_grid :: DDGIData where
  "wide_atlas_grid = grid_data (Vec3 65537 65536 1) (Vec4 0 0 0 1) (Vec4 0 0 0 0)"


text \<open>A texture holding the same value in every texel, and a stand-in octahedral mapping.\<close>

definition uniform_texture :: "float vec4 \<Rightarrow> Texture2D" where
  "uniform_texture v = \<lparr> Load = (\<lambda>texel. v), SampleLevel = (\<lambda>uv. v) \<rparr>"

definition flat_oct :: octahedral where
  "flat_oct v = Vec2 (x3 v) (y3 v)"

section \<open>Flat index and grid coordinates\<close>

lemma nat_index_of_coords:
  fixes X Z i :: nat
  shows "(i div (X * Z)) * (X * Z) + (i mod X + X * (i div X mod Z)) = i"
proof -
  have "i mod (X * Z) = X * (i div X mod Z) + i mod X" by (rule mod_mult2_eq)
  then have "i div (X * Z) * (X * Z) + (i mod X + X * (i div X mod Z)) = i div (X * Z) * (X * Z) + i mod (X * Z)"
    by simp
  also have "\<dots> = i" by (rule div_mult_mod_eq)
  finally show ?thesis .
qed

lemma nat_coords_of_index:
  fixes X Z x y z :: nat
  assumes "x < X" "z < Z"
  shows "(y * (X * Z) + (x + X * z)) mod X = x"
    and "(y * (X * Z) + (x + X * z)) div (X * Z) = y"
    and "((y * (X * Z) + (x + X * z)) div X) mod Z = z"
proof -
  from assms have X: "0 < X" by simp
  have a: "y * (X * Z) + (x + X * z) = x + X * (z + Z * y)" by (simp add: algebra_simps)
  show "(y * (X * Z) + (x + X * z)) mod X = x" using assms by (simp add: a)
  have d: "(x + X * (z + Z * y)) div X = z + Z * y" using assms by simp
  show "((y * (X * Z) + (x + X * z)) div X) mod Z = z" using assms by (simp add: a d)
  have "(x + X * (z + Z * y)) div (X * Z) = (x + X * (z + Z * y)) div X div Z"
    by (simp add: div_mult2_eq)
  also have "\<dots> = y" using assms by (simp add: d)
  finally show "(y * (X * Z) + (x + X * z)) div (X * Z) = y" by (simp add: a)
qed

lemma nat_index_bound:
  fixes X Y Z x y z :: nat
  assumes "x < X" "y < Y" "z < Z"
  shows "y * (X * Z) + (x + X * z) < X * Y * Z"
proof -
  have "x + X * z < X * Z"
  proof -
    have "x + X * z < X + X * z" using assms by simp
    also have "\<dots> = X * Suc z" by simp
    also have "\<dots> \<le> X * Z" using assms by (intro mult_le_mono2) simp
    finally show ?thesis .
  qed
  then have "y * (X * Z) + (x + X * z) < y * (X * Z) + X * Z" by simp
  also have "\<dots> = Suc y * (X * Z)" by simp
  also have "\<dots> \<le> Y * (X * Z)" using assms by (intro mult_le_mono1) simp
  finally show ?thesis by (simp add: mult_ac)
qed

lemma counts_ok_pos:
  assumes "counts_ok data"
  shows "0 < unat (x3 (ProbesCounts data))" "0 < unat (y3 (ProbesCounts data))"
    "0 < unat (z3 (ProbesCounts data))"
  using assms by (simp_all add: counts_ok_def unat_gt_0)

lemma counts_ok_plane:
  assumes "counts_ok data"
  shows "unat (x3 (ProbesCounts data) * z3 (ProbesCounts data)) =
         unat (x3 (ProbesCounts data)) * unat (z3 (ProbesCounts data))"
proof -
  let ?X = "unat (x3 (ProbesCounts data))" and ?Y = "unat (y3 (ProbesCounts data))"
    and ?Z = "unat (z3 (ProbesCounts data))"
  have "?X * ?Z * 1 \<le> ?X * ?Z * ?Y"
    using counts_ok_pos(2)[OF assms] by (intro mult_le_mono2) simp
  also have "\<dots> = ?X * ?Y * ?Z" by (simp add: mult_ac)
  also have "\<dots> < 2 ^ 32" using assms by (simp add: counts_ok_def)
  finally have "?X * ?Z < 2 ^ LENGTH(32)" by simp
  then show ?thesis by (simp only: unat_mult_lem)
qed

lemma unat_GetDDGIProbeIndex:
  assumes ok: "counts_ok data"
    and x: "x3 c < x3 (ProbesCounts data)" and y: "y3 c < y3 (ProbesCounts data)"
    and z: "z3 c < z3 (ProbesCounts data)"
  shows "unat (GetDDGIProbeIndex data c) =
           unat (y3 c) * (unat (x3 (ProbesCounts data)) * unat (z3 (ProbesCounts data))) +
           (unat (x3 c) + unat (x3 (ProbesCounts data)) * unat (z3 c))"
proof -
  let ?X = "unat (x3 (ProbesCounts data))" and ?Y = "unat (y3 (ProbesCounts data))"
    and ?Z = "unat (z3 (ProbesCounts data))"
  let ?n = "unat (y3 c) * (?X * ?Z) + (unat (x3 c) + ?X * unat (z3 c))"
  have "?n < ?X * ?Y * ?Z"
    using x y z by (intro nat_index_bound) (simp_all add: word_less_nat_alt)
  also have "\<dots> < 2 ^ 32" using ok by (simp add: counts_ok_def)
  finally have small: "?n < 2 ^ 32" .
  have "unat (GetDDGIProbeIndex data c) = ?n mod 2 ^ 32"
    by (simp add: GetDDGIProbeIndex_def Let_def unat_word_ariths mod_simps)
  with small show ?thesis by simp
qed

lemma GetDDGIProbeIndex_in_range:
  assumes ok: "counts_ok data"
    and x: "x3 c < x3 (ProbesCounts data)" and y: "y3 c < y3 (ProbesCounts data)"
    and z: "z3 c < z3 (ProbesCounts data)"
  shows "unat (GetDDGIProbeIndex data c) <
           unat (x3 (ProbesCounts data)) * unat (y3 (ProbesCounts data)) * unat (z3 (ProbesCounts data))"
  unfolding unat_GetDDGIProbeIndex[OF assms]
  using x y z by (intro nat_index_bound) (simp_all add: word_less_nat_alt)

lemma unat_GetDDGIProbeCoords:
  assumes ok: "counts_ok data"
  shows "unat (x3 (GetDDGIProbeCoords data i)) = unat i mod unat (x3 (ProbesCounts data))"
    and "unat (y3 (GetDDGIProbeCoords data i)) =
           unat i div (unat (x3 (ProbesCounts data)) * unat (z3 (ProbesCounts data)))"
    and "unat (z3 (GetDDGIProbeCoords data i)) =
           unat i div unat (x3 (ProbesCounts data)) mod unat (z3 (ProbesCounts data))"
proof -
  have nz: "x3 (ProbesCounts data) \<noteq> 0" "z3 (ProbesCounts data) \<noteq> 0"
    using ok by (simp_all add: counts_ok_def)
  have pnz: "x3 (ProbesCounts data) * z3 (ProbesCounts data) \<noteq> 0"
    using counts_ok_plane[OF ok] counts_ok_pos[OF ok] by (simp flip: unat_gt_0)
  show "unat (x3 (GetDDGIProbeCoords data i)) = unat i mod unat (x3 (ProbesCounts data))"
    using nz by (simp add: GetDDGIProbeCoords_def umod_def unat_mod)
  show "unat (y3 (GetDDGIProbeCoords data i)) =
           unat i div (unat (x3 (ProbesCounts data)) * unat (z3 (ProbesCounts data)))"
    using pnz by (simp add: GetDDGIProbeCoords_def udiv_def unat_div counts_ok_plane[OF ok])
  show "unat (z3 (GetDDGIProbeCoords data i)) =
           unat i div unat (x3 (ProbesCounts data)) mod unat (z3 (ProbesCounts data))"
    using nz by (simp add: GetDDGIProbeCoords_def udiv_def umod_def unat_div unat_mod)
qed

lemma GetDDGIProbeCoords_in_range:
  assumes ok: "counts_ok data"
    and i: "unat i < unat (x3 (ProbesCounts data)) * unat (y3 (ProbesCounts data)) * unat (z3 (ProbesCounts data))"
  shows "x3 (GetDDGIProbeCoords data i) < x3 (ProbesCounts data)"
    and "y3 (GetDDGIProbeCoords data i) < y3 (ProbesCounts data)"
    and "z3 (GetDDGIProbeCoords data i) < z3 (ProbesCounts data)"
proof -
  note pos = counts_ok_pos[OF ok]
  show "x3 (GetDDGIProbeCoords data i) < x3 (ProbesCounts data)"
    using pos by (simp add: word_less_nat_alt unat_GetDDGIProbeCoords[OF ok])
  show "z3 (GetDDGIProbeCoords data i) < z3 (ProbesCounts data)"
    using pos by (simp add: word_less_nat_alt unat_GetDDGIProbeCoords[OF ok])
  have "unat i < unat (y3 (ProbesCounts data)) * (unat (x3 (ProbesCounts data)) * unat (z3 (ProbesCounts data)))"
    using i by (simp add: mult_ac)
  then have "unat i div (unat (x3 (ProbesCounts data)) * unat (z3 (ProbesCounts data))) < unat (y3 (ProbesCounts data))"
    using pos by (simp add: less_mult_imp_div_less)
  then show "y3 (GetDDGIProbeCoords data i) < y3 (ProbesCounts data)"
    by (simp add: word_less_nat_alt unat_GetDDGIProbeCoords[OF ok])
qed

lemma index_of_coords:
  assumes ok: "counts_ok data"
    and i: "unat i < unat (x3 (ProbesCounts data)) * unat (y3 (ProbesCounts data)) * unat (z3 (ProbesCounts data))"
  shows "GetDDGIProbeIndex data (GetDDGIProbeCoords data i) = i"
proof -
  have "unat (GetDDGIProbeIndex data (GetDDGIProbeCoords data i)) = unat i"
    unfolding unat_GetDDGIProbeIndex[OF ok GetDDGIProbeCoords_in_range[OF ok i]]
      unat_GetDDGIProbeCoords[OF ok]
    by (rule nat_index_of_coords)
  then show ?thesis by (simp add: word_unat_eq_iff)
qed

lemma coords_of_index:
  assumes ok: "counts_ok data"
    and x: "x3 c < x3 (ProbesCounts data)" and y: "y3 c < y3 (ProbesCounts data)"
    and z: "z3 c < z3 (ProbesCounts data)"
  shows "GetDDGIProbeCoords data (GetDDGIProbeIndex data c) = c"
proof -
  note u = unat_GetDDGIProbeCoords[OF ok] unat_GetDDGIProbeIndex[OF ok x y z]
  have xz: "unat (x3 c) < unat (x3 (ProbesCounts data))" "unat (z3 c) < unat (z3 (ProbesCounts data))"
    using x z by (simp_all add: word_less_nat_alt)
  have "unat (x3 (GetDDGIProbeCoords data (GetDDGIProbeIndex data c))) = unat (x3 c)"
    unfolding u by (rule nat_coords_of_index(1)[OF xz])
  moreover have "unat (y3 (GetDDGIProbeCoords data (GetDDGIProbeIndex data c))) = unat (y3 c)"
    unfolding u by (rule nat_coords_of_index(2)[OF xz])
  moreover have "unat (z3 (GetDDGIProbeCoords data (GetDDGIProbeIndex data c))) = unat (z3 c)"
    unfolding u by (rule nat_coords_of_index(3)[OF xz])
  ultimately show ?thesis
    by (simp add: word_unat_eq_iff vec3.expand)
qed

text \<open>
  C2 (as amended).  For every grid whose dimensions are positive and whose probe count
  \<open>X * Y * Z\<close> is below \<open>2^32\<close>: every flat index \<open>i < X * Y * Z\<close> is mapped by
  \<open>GetDDGIProbeCoords\<close> to coordinates inside the grid and \<open>GetDDGIProbeIndex\<close> maps
  them back to \<open>i\<close>; every coordinate triple inside the grid is mapped by
  \<open>GetDDGIProbeIndex\<close> to an index below \<open>X * Y * Z\<close> and \<open>GetDDGIProbeCoords\<close> maps it
  back to the triple.
\<close>

theorem C2_index_coords_bijection:
  assumes ok: "counts_ok data"
  shows "(unat i < unat (x3 (ProbesCounts data)) * unat (y3 (ProbesCounts data)) *
                   unat (z3 (ProbesCounts data)) \<longrightarrow>
            GetDDGIProbeIndex data (GetDDGIProbeCoords data i) = i \<and>
            x3 (GetDDGIProbeCoords data i) < x3 (ProbesCounts data) \<and>
            y3 (GetDDGIProbeCoords data i) < y3 (ProbesCounts data) \<and>
            z3 (GetDDGIProbeCoords data i) < z3 (ProbesCounts data)) \<and>
         (x3 c < x3 (ProbesCounts data) \<and> y3 c < y3 (ProbesCounts data) \<and>
          z3 c < z3 (ProbesCounts data) \<longrightarrow>
            GetDDGIProbeCoords data (GetDDGIProbeIndex data c) = c \<and>
            unat (GetDDGIProbeIndex data c) <
              unat (x3 (ProbesCounts data)) * unat (y3 (ProbesCounts data)) *
              unat (z3 (ProbesCounts data)))"
proof (intro conjI impI)
  assume i: "unat i < unat (x3 (ProbesCounts data)) * unat (y3 (ProbesCounts data)) *
                      unat (z3 (ProbesCounts data))"
  show "GetDDGIProbeIndex data (GetDDGIProbeCoords data i) = i"
    by (rule index_of_coords [OF ok i])
  show "x3 (GetDDGIProbeCoords data i) < x3 (ProbesCounts data)"
    "y3 (GetDDGIProbeCoords data i) < y3 (ProbesCounts data)"
    "z3 (GetDDGIProbeCoords data i) < z3 (ProbesCounts data)"
    by (rule GetDDGIProbeCoords_in_range [OF ok i])+
next
  assume c: "x3 c < x3 (ProbesCounts data) \<and> y3 c < y3 (ProbesCounts data) \<and>
             z3 c < z3 (ProbesCounts data)"
  then show "GetDDGIProbeCoords data (GetDDGIProbeIndex data c) = c"
    by (intro coords_of_index [OF ok]) simp_all
  from c show "unat (GetDDGIProbeIndex data c) <
      unat (x3 (ProbesCounts data)) * unat (y3 (ProbesCounts data)) *
      unat (z3 (ProbesCounts data))"
    by (intro GetDDGIProbeIndex_in_range [OF ok]) simp_all
qed

lemma small_grid_ok: "counts_ok small_grid"
  by (simp add: counts_ok_def small_grid_def grid_data_def)

theorem C2_index_coords_bijection_witness:
  "counts_ok small_grid \<and>
   unat (17 :: uint) < unat (x3 (ProbesCounts small_grid)) * unat (y3 (ProbesCounts small_grid)) *
                       unat (z3 (ProbesCounts small_grid)) \<and>
   GetDDGIProbeIndex small_grid (GetDDGIProbeCoords small_grid 17) = 17 \<and>
   x3 (Vec3 1 2 1 :: uint vec3) < x3 (ProbesCounts small_grid) \<and>
   y3 (Vec3 1 2 1 :: uint vec3) < y3 (ProbesCounts small_grid) \<and>
   z3 (Vec3 1 2 1 :: uint vec3) < z3 (ProbesCounts small_grid) \<and>
   GetDDGIProbeCoords small_grid (GetDDGIProbeIndex small_grid (Vec3 1 2 1)) = Vec3 1 2 1"
proof -
  have i: "unat (17 :: uint) < unat (x3 (ProbesCounts small_grid)) *
             unat (y3 (ProbesCounts small_grid)) * unat (z3 (ProbesCounts small_grid))"
    by (simp add: small_grid_def grid_data_def)
  have c: "x3 (Vec3 1 2 1 :: uint vec3) < x3 (ProbesCounts small_grid) \<and>
           y3 (Vec3 1 2 1 :: uint vec3) < y3 (ProbesCounts small_grid) \<and>
           z3 (Vec3 1 2 1 :: uint vec3) < z3 (ProbesCounts small_grid)"
    by (simp add: small_grid_def grid_data_def)
  from C2_index_coords_bijection [OF small_grid_ok, of 17 "Vec3 1 2 1"] i c small_grid_ok
  show ?thesis by blast
qed

text \<open>
  C2 as stated, for every positive triple, fails where the probe count exceeds
  32 bits: in the grid \<open>(3, 1, 2^31)\<close> the coordinates \<open>(0, 0, 2^31 - 1)\<close> lie inside
  the grid, their flat index wraps around, and the coordinates read back differ.
\<close>

theorem C2_overflow_counterexample:
  "x3 (ProbesCounts overflow_grid) \<noteq> 0 \<and> y3 (ProbesCounts overflow_grid) \<noteq> 0 \<and>
   z3 (ProbesCounts overflow_grid) \<noteq> 0 \<and>
   x3 (Vec3 0 0 0x7FFFFFFF :: uint vec3) < x3 (ProbesCounts overflow_grid) \<and>
   y3 (Vec3 0 0 0x7FFFFFFF :: uint vec3) < y3 (ProbesCounts overflow_grid) \<and>
   z3 (Vec3 0 0 0x7FFFFFFF :: uint vec3) < z3 (ProbesCounts overflow_grid) \<and>
   GetDDGIProbeCoords overflow_grid (GetDDGIProbeIndex overflow_grid (Vec3 0 0 0x7FFFFFFF))
     \<noteq> Vec3 0 0 0x7FFFFFFF"
  by (simp add: overflow_grid_def grid_data_def GetDDGIProbeCoords_def GetDDGIProbeIndex_def
      udiv_def umod_def)

section \<open>Scrolling probe index\<close>

lemma word_of_int_sint_id: "word_of_int (sint s) = (s :: 'a::len word)"
  by (simp only: scast_eq [symmetric] scast_id)

lemma word_sum_of_int: "(c::uint) + s + n = word_of_int (uint c + sint s + uint n)"
proof -
  have "word_of_int (uint c + sint s + uint n) = (word_of_int (uint c) + word_of_int (sint s) + word_of_int (uint n) :: uint)"
    by (simp only: of_int_add)
  also have "\<dots> = c + s + n" by (simp only: word_of_int_uint word_of_int_sint_id)
  finally show ?thesis by (rule sym)
qed

lemma uint_word_of_int_small: assumes "0 \<le> k" "k < 2 ^ 32" shows "uint (word_of_int k :: uint) = k"
proof -
  have "uint (word_of_int k :: uint) = k mod 2 ^ 32" by (simp only: uint_word_of_int) simp
  with assms show ?thesis by simp
qed

lemma uint_pos_of_nonzero: "(n::uint) \<noteq> 0 \<Longrightarrow> 0 < uint n"
  by (simp add: word_neq_0_conv word_less_def)

lemma scroll_axis:
  assumes n: "n \<noteq> 0" and nw: "noWrap c s n"
  shows "umod (c + s + n) n = wrapCoord c s n"
proof -
  let ?k = "uint c + sint s + uint n"
  have c0: "0 \<le> uint c" by (rule uint_ge_0)
  have lo: "0 \<le> ?k" using nw c0 unfolding noWrap_def by linarith
  have hi: "?k < 2 ^ 32" using nw unfolding noWrap_def by linarith
  have sum: "uint (c + s + n) = ?k"
    unfolding word_sum_of_int by (rule uint_word_of_int_small[OF lo hi])
  have "uint (umod (c + s + n) n) = uint (c + s + n) mod uint n"
    using n by (simp only: umod_def uint_mod if_False)
  also have "\<dots> = ?k mod uint n" by (simp only: sum)
  also have "\<dots> = (uint c + sint s) mod uint n" by (rule mod_add_self2)
  finally have "word_of_int (uint (umod (c + s + n) n)) = (word_of_int ((uint c + sint s) mod uint n) :: uint)"
    by (rule arg_cong)
  then show ?thesis by (simp only: wrapCoord_def word_of_int_uint)
qed

lemma wrapCoord_less:
  assumes n: "n \<noteq> 0"
  shows "wrapCoord c s n < n"
proof -
  have pos: "0 < uint n" using n by (rule uint_pos_of_nonzero)
  let ?m = "(uint c + sint s) mod uint n"
  have m0: "0 \<le> ?m" using pos by (rule pos_mod_sign)
  have m1: "?m < uint n" using pos by (rule pos_mod_bound)
  have "uint n < 2 ^ 32" using uint_lt2p[of n] by simp
  with m1 have "?m < 2 ^ 32" by linarith
  then have "uint (word_of_int ?m :: uint) = ?m" by (rule uint_word_of_int_small[OF m0])
  with m1 show ?thesis by (simp only: wrapCoord_def word_less_def)
qed

lemma scrolling_eq:
  assumes ok: "counts_ok data" and nw: "noWrap3 data cascadeIndex c"
  shows "GetDDGIScrollingProbeIndex data cascadeIndex c =
         GetDDGIProbeIndex data (scrolledCoords data cascadeIndex c)"
proof -
  have nz: "x3 (ProbesCounts data) \<noteq> 0" "y3 (ProbesCounts data) \<noteq> 0" "z3 (ProbesCounts data) \<noteq> 0"
    using ok by (simp_all add: counts_ok_def)
  have "zip3 umod
          (zip3 (+) (zip3 (+) c (xyz (ProbesScrollOffsets data ! unat cascadeIndex)))
                    (ProbesCounts data))
          (ProbesCounts data) = scrolledCoords data cascadeIndex c"
    using nw nz by (simp add: zip3_def scrolledCoords_def noWrap3_def Let_def scroll_axis)
  then show ?thesis by (simp only: GetDDGIScrollingProbeIndex_def)
qed

lemma scrolledCoords_in_range:
  assumes ok: "counts_ok data"
  shows "x3 (scrolledCoords data cascadeIndex c) < x3 (ProbesCounts data)"
    "y3 (scrolledCoords data cascadeIndex c) < y3 (ProbesCounts data)"
    "z3 (scrolledCoords data cascadeIndex c) < z3 (ProbesCounts data)"
  using ok by (simp_all add: counts_ok_def scrolledCoords_def Let_def wrapCoord_less)

text \<open>
  C10 (as amended).  In a well-formed grid (positive dimensions, fewer than \<open>2^32\<close>
  probes), for coordinates inside the grid and a scroll offset of at least \<open>- count\<close>
  on every axis such that \<open>coordinate + offset + count\<close> stays below \<open>2^32\<close> on
  every axis, \<open>GetDDGIScrollingProbeIndex\<close> returns a flat index below \<open>X * Y * Z\<close>,
  equal to \<open>GetDDGIProbeIndex\<close> of the componentwise mathematical modulus
  \<open>(coords + scrollOffset) mod counts\<close>.
\<close>

theorem C10_scrolling_index_modulus:
  assumes "counts_ok data"
    and "unat cascadeIndex < length (ProbesScrollOffsets data)"
    and "x3 c < x3 (ProbesCounts data)" "y3 c < y3 (ProbesCounts data)"
      "z3 c < z3 (ProbesCounts data)"
    and "noWrap3 data cascadeIndex c"
  shows "unat (GetDDGIScrollingProbeIndex data cascadeIndex c) <
           unat (x3 (ProbesCounts data)) * unat (y3 (ProbesCounts data)) *
           unat (z3 (ProbesCounts data)) \<and>
         GetDDGIScrollingProbeIndex data cascadeIndex c =
           GetDDGIProbeIndex data (scrolledCoords data cascadeIndex c)"
  using assms(1,6)
    GetDDGIProbeIndex_in_range [OF assms(1) scrolledCoords_in_range [OF assms(1)]]
  by (simp add: scrolling_eq)

theorem C10_scrolling_index_modulus_witness:
  "counts_ok small_grid \<and> unat (0 :: uint) < length (ProbesScrollOffsets small_grid) \<and>
   x3 (Vec3 0 2 1 :: uint vec3) < x3 (ProbesCounts small_grid) \<and>
   y3 (Vec3 0 2 1 :: uint vec3) < y3 (ProbesCounts small_grid) \<and>
   z3 (Vec3 0 2 1 :: uint vec3) < z3 (ProbesCounts small_grid) \<and>
   noWrap3 small_grid 0 (Vec3 0 2 1) \<and>
   unat (GetDDGIScrollingProbeIndex small_grid 0 (Vec3 0 2 1)) <
     unat (x3 (ProbesCounts small_grid)) * unat (y3 (ProbesCounts small_grid)) *
     unat (z3 (ProbesCounts small_grid)) \<and>
   GetDDGIScrollingProbeIndex small_grid 0 (Vec3 0 2 1) =
     GetDDGIProbeIndex small_grid (scrolledCoords small_grid 0 (Vec3 0 2 1))"
proof -
  have h: "unat (0 :: uint) < length (ProbesScrollOffsets small_grid)"
    "x3 (Vec3 0 2 1 :: uint vec3) < x3 (ProbesCounts small_grid)"
    "y3 (Vec3 0 2 1 :: uint vec3) < y3 (ProbesCounts small_grid)"
    "z3 (Vec3 0 2 1 :: uint vec3) < z3 (ProbesCounts small_grid)"
    "noWrap3 small_grid 0 (Vec3 0 2 1)"
    by (simp_all add: small_grid_def grid_data_def noWrap3_def noWrap_def xyz_def)
  from C10_scrolling_index_modulus [OF small_grid_ok h] small_grid_ok h
  show ?thesis by blast
qed

text \<open>
  C10 as stated fails where the unsigned sum wraps around: with \<open>2^31 + 1\<close> probes
  along x, the coordinate \<open>2^31\<close> and the scroll offset \<open>2^31 - 1\<close> (inside the grid, and
  not below \<open>- count\<close>) the sum is \<open>2^32 + 2^31\<close>; the code addresses the probe \<open>2^31\<close>,
  the mathematical modulus is \<open>2^31 - 2\<close>.
\<close>

theorem C10_wrap_counterexample:
  "x3 (Vec3 0x80000000 0 0 :: uint vec3) < x3 (ProbesCounts wide_grid) \<and>
   y3 (Vec3 0x80000000 0 0 :: uint vec3) < y3 (ProbesCounts wide_grid) \<and>
   z3 (Vec3 0x80000000 0 0 :: uint vec3) < z3 (ProbesCounts wide_grid) \<and>
   - uint (x3 (ProbesCounts wide_grid))
      \<le> sint (x3 (xyz (ProbesScrollOffsets wide_grid ! unat (0 :: uint)))) \<and>
   - uint (y3 (ProbesCounts wide_grid))
      \<le> sint (y3 (xyz (ProbesScrollOffsets wide_grid ! unat (0 :: uint)))) \<and>
   - uint (z3 (ProbesCounts wide_grid))
      \<le> sint (z3 (xyz (ProbesScrollOffsets wide_grid ! unat (0 :: uint)))) \<and>
   GetDDGIScrollingProbeIndex wide_grid 0 (Vec3 0x80000000 0 0) = 0x80000000 \<and>
   GetDDGIProbeIndex wide_grid (scrolledCoords wide_grid 0 (Vec3 0x80000000 0 0)) = 0x7FFFFFFE"
  by (simp add: wide_grid_def grid_data_def xyz_def GetDDGIScrollingProbeIndex_def
      GetDDGIProbeIndex_def scrolledCoords_def wrapCoord_def zip3_def umod_def)

section \<open>Evaluating binary32 rounding\<close>

lemma pow2_powr: "pow2 e = 2 powr (of_int e)"
  by (simp add: pow2_def powr_int)

lemma binade_eq:
  assumes "pow2 e \<le> \<bar>x\<bar>" "\<bar>x\<bar> < pow2 (e + 1)" "- 126 \<le> e"
  shows "binade x = e"
proof -
  have "0 < pow2 e" by (simp add: pow2_def)
  with assms(1) have pos: "0 < \<bar>x\<bar>" by linarith
  have "\<lfloor>log 2 \<bar>x\<bar>\<rfloor> = e"
    using assms(1,2) pos by (simp add: floor_log_eq_powr_iff pow2_powr)
  with assms(3) show ?thesis by (simp add: binade_def)
qed

lemma float32_eq:
  assumes "pow2 e \<le> \<bar>x\<bar>" "\<bar>x\<bar> < pow2 (e + 1)" "- 126 \<le> e"
    and "round_ties_even (x / pow2 (e - 23)) = m"
  shows "float32 x = of_int m * pow2 (e - 23)"
proof -
  have "0 < pow2 e" by (simp add: pow2_def)
  with assms(1) have "x \<noteq> 0" by auto
  then show ?thesis
    by (simp add: float32_def binade_eq [OF assms(1-3)] assms(4))
qed

section \<open>Atlas coordinates of a probe\<close>

lemma nat_texel_x_bound:
  fixes X Y Z i :: nat
  assumes "0 < X" "0 < Z" "i < X * Y * Z"
  shows "i mod X + i div (X * Z) * X < X * Y"
proof -
  have "i < Y * (X * Z)" using assms(3) by (simp add: mult_ac)
  then have "i div (X * Z) < Y" using assms by (simp add: less_mult_imp_div_less)
  then have "Suc (i div (X * Z)) \<le> Y" by simp
  then have "Suc (i div (X * Z)) * X \<le> Y * X" by (rule mult_le_mono1)
  moreover have "i mod X < X" using assms by simp
  ultimately show ?thesis by (simp add: mult_ac)
qed

lemma nat_texel_y_bound:
  fixes Z C c k :: nat
  assumes "0 < Z" "c < C"
  shows "k mod Z + c * Z < Z * C"
proof -
  have "Suc c \<le> C" using assms by simp
  then have "Suc c * Z \<le> C * Z" by (rule mult_le_mono1)
  moreover have "k mod Z < Z" using assms by simp
  ultimately show ?thesis by (simp add: mult_ac)
qed

lemma unat_add_mult: "unat (a + b * c :: uint) = (unat a + unat b * unat c) mod 2 ^ 32"
  by (simp add: unat_word_ariths mod_simps)

lemma unat_texel_coords:
  assumes ok: "counts_ok data"
    and c: "cascadeIndex < CascadesCount data"
    and zc: "unat (z3 (ProbesCounts data)) * unat (CascadesCount data) < 2 ^ 32"
    and i: "unat probeIndex < unat (x3 (ProbesCounts data)) * unat (y3 (ProbesCounts data)) *
              unat (z3 (ProbesCounts data))"
  shows "unat (x2 (GetDDGIProbeTexelCoords data cascadeIndex probeIndex)) =
           unat probeIndex mod unat (x3 (ProbesCounts data)) +
           unat probeIndex div (unat (x3 (ProbesCounts data)) * unat (z3 (ProbesCounts data))) *
             unat (x3 (ProbesCounts data))"
    and "unat (y2 (GetDDGIProbeTexelCoords data cascadeIndex probeIndex)) =
           unat probeIndex div unat (x3 (ProbesCounts data)) mod unat (z3 (ProbesCounts data)) +
           unat cascadeIndex * unat (z3 (ProbesCounts data))"
proof -
  let ?X = "unat (x3 (ProbesCounts data))" and ?Y = "unat (y3 (ProbesCounts data))"
    and ?Z = "unat (z3 (ProbesCounts data))" and ?C = "unat (CascadesCount data)"
  note pos = counts_ok_pos [OF ok]
  have nz: "x3 (ProbesCounts data) \<noteq> 0" "z3 (ProbesCounts data) \<noteq> 0"
    using ok by (simp_all add: counts_ok_def)
  have pnz: "x3 (ProbesCounts data) * z3 (ProbesCounts data) \<noteq> 0"
    using counts_ok_plane [OF ok] pos by (simp flip: unat_gt_0)
  let ?x = "unat probeIndex mod ?X + unat probeIndex div (?X * ?Z) * ?X"
  let ?y = "unat probeIndex div ?X mod ?Z + unat cascadeIndex * ?Z"
  have "?x < ?X * ?Y" using pos i by (intro nat_texel_x_bound) simp_all
  also have "\<dots> * 1 \<le> ?X * ?Y * ?Z" using pos by (intro mult_le_mono2) simp
  also have "\<dots> < 2 ^ 32" using ok by (simp add: counts_ok_def)
  finally have xs: "?x < 2 ^ 32" by simp
  have "unat cascadeIndex < ?C" using c by (simp add: word_less_nat_alt)
  then have "?y < ?Z * ?C" using pos by (intro nat_texel_y_bound) simp_all
  with zc have ys: "?y < 2 ^ 32" by simp
  have plane: "unat (udiv probeIndex (x3 (ProbesCounts data) * z3 (ProbesCounts data))) =
      unat probeIndex div (?X * ?Z)"
    using pnz by (simp add: udiv_def unat_div counts_ok_plane [OF ok])
  have gx: "unat (umod probeIndex (x3 (ProbesCounts data))) = unat probeIndex mod ?X"
    using nz by (simp add: umod_def unat_mod)
  have gy: "unat (umod (udiv probeIndex (x3 (ProbesCounts data))) (z3 (ProbesCounts data))) =
      unat probeIndex div ?X mod ?Z"
    using nz by (simp add: umod_def udiv_def unat_mod unat_div)
  have "unat (x2 (GetDDGIProbeTexelCoords data cascadeIndex probeIndex)) = ?x mod 2 ^ 32"
    by (simp only: GetDDGIProbeTexelCoords_def Let_def vec2.sel unat_add_mult plane gx)
  with xs show "unat (x2 (GetDDGIProbeTexelCoords data cascadeIndex probeIndex)) = ?x" by simp
  have "unat (y2 (GetDDGIProbeTexelCoords data cascadeIndex probeIndex)) = ?y mod 2 ^ 32"
    by (simp only: GetDDGIProbeTexelCoords_def Let_def vec2.sel unat_add_mult gy)
  with ys show "unat (y2 (GetDDGIProbeTexelCoords data cascadeIndex probeIndex)) = ?y" by simp
qed

lemma interior_axis:
  fixes bs r t a :: real
  assumes "bs = r + 2" "0 \<le> r" "- 1 \<le> t" "t \<le> 1" "0 < a"
  shows "insideBlockInterior k bs ((real k * bs + bs * 0.5 + t * (r * 0.5)) / (a * bs) * (a * bs))"
proof -
  define kb where "kb = real k * bs"
  define v where "v = t * (r * 0.5)"
  have "a * bs \<noteq> 0" using assms by simp
  then have eq: "(real k * bs + bs * 0.5 + t * (r * 0.5)) / (a * bs) * (a * bs) =
      kb + bs * 0.5 + v"
    by (simp add: kb_def v_def)
  have lo: "- (r * 0.5) \<le> v"
    unfolding v_def using assms mult_right_mono [of "- 1" t "r * 0.5"] by simp
  have hi: "v \<le> r * 0.5"
    unfolding v_def using assms mult_right_mono [of t 1 "r * 0.5"] by simp
  have up: "(real k + 1) * bs = kb + bs" by (simp add: kb_def algebra_simps)
  have "kb < kb + bs * 0.5 + v" "kb + bs * 0.5 + v < kb + bs"
    "kb + 1 \<le> kb + bs * 0.5 + v" "kb + bs * 0.5 + v \<le> kb + bs - 1"
    using lo hi assms(1,2) by linarith+
  then have "insideBlockInterior k bs (kb + bs * 0.5 + v)"
    unfolding insideBlockInterior_def up kb_def [symmetric] by blast
  then show ?thesis by (simp only: eq)
qed

lemma pixel_axis:
  fixes bs r t a :: real
  assumes "0 < bs" "0 < a"
  shows "(real k * bs + bs * 0.5 + t * (r * 0.5)) / (a * bs) * (a * bs) =
         real k * bs + bs * 0.5 + t * (r * 0.5)"
  using assms by simp

text \<open>
  At the octahedral coordinate \<open>1\<close> the sample point is exactly one texel away from the
  far edge of the block: the bound of the interior is attained.
\<close>

lemma GetDDGIProbeUV_far_edge:
  assumes ok: "counts_ok data" and o: "x2 octahedralCoords = 1"
  shows "x2 (GetDDGIProbeUV data cascadeIndex probeIndex octahedralCoords resolution) *
           x2 (atlasPixelSize data resolution) =
         (real (unat (x2 (GetDDGIProbeTexelCoords data cascadeIndex probeIndex))) + 1) *
           (real (unat resolution) + 2) - 1"
proof -
  let ?X = "unat (x3 (ProbesCounts data))" and ?Y = "unat (y3 (ProbesCounts data))"
    and ?Z = "unat (z3 (ProbesCounts data))"
  note pos = counts_ok_pos [OF ok]
  have "?X * ?Y * 1 \<le> ?X * ?Y * ?Z" using pos by (intro mult_le_mono2) simp
  also have "\<dots> < 2 ^ 32" using ok by (simp add: counts_ok_def)
  finally have "?X * ?Y < 2 ^ LENGTH(32)" by simp
  then have xy: "unat (x3 (ProbesCounts data) * y3 (ProbesCounts data)) = ?X * ?Y"
    by (simp only: unat_mult_lem)
  have "0 < ?X * ?Y" using pos by simp
  then have ax: "0 < real (?X * ?Y)" by (simp only: of_nat_0_less_iff)
  have "0 \<le> real (unat resolution)" by (rule of_nat_0_le_iff)
  then have bs: "0 < real (unat resolution) + 2" by linarith
  have "x2 (GetDDGIProbeUV data cascadeIndex probeIndex octahedralCoords resolution) *
           x2 (atlasPixelSize data resolution) =
        real (unat (x2 (GetDDGIProbeTexelCoords data cascadeIndex probeIndex))) *
          (real (unat resolution) + 2) + (real (unat resolution) + 2) * 0.5 +
          x2 octahedralCoords * (real (unat resolution) * 0.5)"
    unfolding GetDDGIProbeUV_def Let_def vec2.sel atlasPixelSize_def uint_to_float_def xy
    by (rule pixel_axis [OF bs ax])
  then show ?thesis by (simp add: o algebra_simps)
qed

lemma probe_uv_interior:
  assumes ok: "counts_ok data"
    and c: "cascadeIndex < CascadesCount data"
    and zc: "unat (z3 (ProbesCounts data)) * unat (CascadesCount data) < 2 ^ 32"
    and i: "unat probeIndex < unat (x3 (ProbesCounts data)) * unat (y3 (ProbesCounts data)) *
              unat (z3 (ProbesCounts data))"
    and ox: "- 1 \<le> x2 octahedralCoords" "x2 octahedralCoords \<le> 1"
    and oy: "- 1 \<le> y2 octahedralCoords" "y2 octahedralCoords \<le> 1"
  shows "insideBlockInterior (unat (x2 (GetDDGIProbeTexelCoords data cascadeIndex probeIndex)))
           (real (unat resolution) + 2)
           (x2 (GetDDGIProbeUV data cascadeIndex probeIndex octahedralCoords resolution) *
            x2 (atlasPixelSize data resolution)) \<and>
         insideBlockInterior (unat (y2 (GetDDGIProbeTexelCoords data cascadeIndex probeIndex)))
           (real (unat resolution) + 2)
           (y2 (GetDDGIProbeUV data cascadeIndex probeIndex octahedralCoords resolution) *
            y2 (atlasPixelSize data resolution)) \<and>
         unat (x2 (GetDDGIProbeTexelCoords data cascadeIndex probeIndex)) <
           unat (x3 (ProbesCounts data)) * unat (y3 (ProbesCounts data)) \<and>
         unat (y2 (GetDDGIProbeTexelCoords data cascadeIndex probeIndex)) <
           unat (z3 (ProbesCounts data)) * unat (CascadesCount data)"
proof -
  let ?X = "unat (x3 (ProbesCounts data))" and ?Y = "unat (y3 (ProbesCounts data))"
    and ?Z = "unat (z3 (ProbesCounts data))" and ?C = "unat (CascadesCount data)"
  let ?t = "GetDDGIProbeTexelCoords data cascadeIndex probeIndex"
  note pos = counts_ok_pos [OF ok]
  note tex = unat_texel_coords [OF ok c zc i]
  have cpos: "unat cascadeIndex < ?C" using c by (simp add: word_less_nat_alt)
  have "?X * ?Y * 1 \<le> ?X * ?Y * ?Z" using pos by (intro mult_le_mono2) simp
  also have "\<dots> < 2 ^ 32" using ok by (simp add: counts_ok_def)
  finally have "?X * ?Y < 2 ^ LENGTH(32)" by simp
  then have xy: "unat (x3 (ProbesCounts data) * y3 (ProbesCounts data)) = ?X * ?Y"
    by (simp only: unat_mult_lem)
  from zc have "?Z * ?C < 2 ^ LENGTH(32)" by simp
  then have zcu: "unat (z3 (ProbesCounts data) * CascadesCount data) = ?Z * ?C"
    by (simp only: unat_mult_lem)
  have "0 < ?X * ?Y" using pos by simp
  then have ax: "0 < real (?X * ?Y)" by (simp only: of_nat_0_less_iff)
  have "0 < ?Z * ?C" using pos cpos by simp
  then have ay: "0 < real (?Z * ?C)" by (simp only: of_nat_0_less_iff)
  have r0: "0 \<le> real (unat resolution)" by (rule of_nat_0_le_iff)
  have bx: "unat (x2 ?t) < ?X * ?Y"
    unfolding tex(1) using pos i by (intro nat_texel_x_bound) simp_all
  have by': "unat (y2 ?t) < ?Z * ?C"
    unfolding tex(2) using pos cpos by (intro nat_texel_y_bound) simp_all
  have ix: "insideBlockInterior (unat (x2 ?t)) (real (unat resolution) + 2)
           (x2 (GetDDGIProbeUV data cascadeIndex probeIndex octahedralCoords resolution) *
            x2 (atlasPixelSize data resolution))"
    unfolding GetDDGIProbeUV_def Let_def vec2.sel atlasPixelSize_def uint_to_float_def xy
    by (rule interior_axis [OF refl r0 ox ax])
  have iy: "insideBlockInterior (unat (y2 ?t)) (real (unat resolution) + 2)
           (y2 (GetDDGIProbeUV data cascadeIndex probeIndex octahedralCoords resolution) *
            y2 (atlasPixelSize data resolution))"
    unfolding GetDDGIProbeUV_def Let_def vec2.sel atlasPixelSize_def uint_to_float_def zcu
    by (rule interior_axis [OF refl r0 oy ay])
  from ix iy bx by' show ?thesis by blast
qed

lemma probe_uv_pixel:
  assumes ok: "counts_ok data"
    and c: "cascadeIndex < CascadesCount data"
    and zc: "unat (z3 (ProbesCounts data)) * unat (CascadesCount data) < 2 ^ 32"
  shows "x2 (GetDDGIProbeUV data cascadeIndex probeIndex octahedralCoords resolution) *
           x2 (atlasPixelSize data resolution) =
         real (unat (x2 (GetDDGIProbeTexelCoords data cascadeIndex probeIndex))) *
           (real (unat resolution) + 2) + (real (unat resolution) + 2) * 0.5 +
           x2 octahedralCoords * (real (unat resolution) * 0.5)"
    and "y2 (GetDDGIProbeUV data cascadeIndex probeIndex octahedralCoords resolution) *
           y2 (atlasPixelSize data resolution) =
         real (unat (y2 (GetDDGIProbeTexelCoords data cascadeIndex probeIndex))) *
           (real (unat resolution) + 2) + (real (unat resolution) + 2) * 0.5 +
           y2 octahedralCoords * (real (unat resolution) * 0.5)"
proof -
  let ?X = "unat (x3 (ProbesCounts data))" and ?Y = "unat (y3 (ProbesCounts data))"
    and ?Z = "unat (z3 (ProbesCounts data))" and ?C = "unat (CascadesCount data)"
  note pos = counts_ok_pos [OF ok]
  have cpos: "unat cascadeIndex < ?C" using c by (simp add: word_less_nat_alt)
  have "?X * ?Y * 1 \<le> ?X * ?Y * ?Z" using pos by (intro mult_le_mono2) simp
  also have "\<dots> < 2 ^ 32" using ok by (simp add: counts_ok_def)
  finally have "?X * ?Y < 2 ^ LENGTH(32)" by simp
  then have xy: "unat (x3 (ProbesCounts data) * y3 (ProbesCounts data)) = ?X * ?Y"
    by (simp only: unat_mult_lem)
  from zc have "?Z * ?C < 2 ^ LENGTH(32)" by simp
  then have zcu: "unat (z3 (ProbesCounts data) * CascadesCount data) = ?Z * ?C"
    by (simp only: unat_mult_lem)
  have "0 < ?X * ?Y" using pos by simp
  then have ax: "0 < real (?X * ?Y)" by (simp only: of_nat_0_less_iff)
  have "0 < ?Z * ?C" using pos cpos by simp
  then have ay: "0 < real (?Z * ?C)" by (simp only: of_nat_0_less_iff)
  have "0 \<le> real (unat resolution)" by (rule of_nat_0_le_iff)
  then have bs: "0 < real (unat resolution) + 2" by linarith
  show "x2 (GetDDGIProbeUV data cascadeIndex probeIndex octahedralCoords resolution) *
           x2 (atlasPixelSize data resolution) =
         real (unat (x2 (GetDDGIProbeTexelCoords data cascadeIndex probeIndex))) *
           (real (unat resolution) + 2) + (real (unat resolution) + 2) * 0.5 +
           x2 octahedralCoords * (real (unat resolution) * 0.5)"
    unfolding GetDDGIProbeUV_def Let_def vec2.sel atlasPixelSize_def uint_to_float_def xy
    by (rule pixel_axis [OF bs ax])
  show "y2 (GetDDGIProbeUV data cascadeIndex probeIndex octahedralCoords resolution) *
           y2 (atlasPixelSize data resolution) =
         real (unat (y2 (GetDDGIProbeTexelCoords data cascadeIndex probeIndex))) *
           (real (unat resolution) + 2) + (real (unat resolution) + 2) * 0.5 +
           y2 octahedralCoords * (real (unat resolution) * 0.5)"
    unfolding GetDDGIProbeUV_def Let_def vec2.sel atlasPixelSize_def uint_to_float_def zcu
    by (rule pixel_axis [OF bs ay])
qed

lemma nat_texel_inj:
  fixes X Z i j c d :: nat
  assumes X: "0 < X" and Z: "0 < Z"
    and x: "i mod X + i div (X * Z) * X = j mod X + j div (X * Z) * X"
    and y: "i div X mod Z + c * Z = j div X mod Z + d * Z"
  shows "i = j \<and> c = d"
proof -
  have "(i mod X + i div (X * Z) * X) div X = i div (X * Z)" using X by simp
  moreover have "(j mod X + j div (X * Z) * X) div X = j div (X * Z)" using X by simp
  ultimately have plane: "i div (X * Z) = j div (X * Z)" using x by simp
  have "(i mod X + i div (X * Z) * X) mod X = i mod X" by simp
  moreover have "(j mod X + j div (X * Z) * X) mod X = j mod X" by simp
  ultimately have col: "i mod X = j mod X" using x by simp
  have "(i div X mod Z + c * Z) div Z = c" using Z by simp
  moreover have "(j div X mod Z + d * Z) div Z = d" using Z by simp
  ultimately have cd: "c = d" using y by simp
  have "(i div X mod Z + c * Z) mod Z = i div X mod Z" by simp
  moreover have "(j div X mod Z + d * Z) mod Z = j div X mod Z" by simp
  ultimately have row: "i div X mod Z = j div X mod Z" using y by simp
  have "i mod (X * Z) = X * (i div X mod Z) + i mod X" by (rule mod_mult2_eq)
  moreover have "j mod (X * Z) = X * (j div X mod Z) + j mod X" by (rule mod_mult2_eq)
  ultimately have rest: "i mod (X * Z) = j mod (X * Z)" using row col by simp
  have "i = i div (X * Z) * (X * Z) + i mod (X * Z)" by (rule div_mult_mod_eq [symmetric])
  also have "\<dots> = j div (X * Z) * (X * Z) + j mod (X * Z)" by (simp only: plane rest)
  also have "\<dots> = j" by (rule div_mult_mod_eq)
  finally show ?thesis using cd by simp
qed

lemma texel_coords_inj:
  assumes ok: "counts_ok data"
    and zc: "unat (z3 (ProbesCounts data)) * unat (CascadesCount data) < 2 ^ 32"
    and c: "cascadeIndex < CascadesCount data" and c': "cascadeIndex' < CascadesCount data"
    and i: "unat probeIndex < unat (x3 (ProbesCounts data)) * unat (y3 (ProbesCounts data)) *
              unat (z3 (ProbesCounts data))"
    and i': "unat probeIndex' < unat (x3 (ProbesCounts data)) * unat (y3 (ProbesCounts data)) *
              unat (z3 (ProbesCounts data))"
    and eq: "GetDDGIProbeTexelCoords data cascadeIndex' probeIndex' =
             GetDDGIProbeTexelCoords data cascadeIndex probeIndex"
  shows "cascadeIndex' = cascadeIndex \<and> probeIndex' = probeIndex"
proof -
  note pos = counts_ok_pos [OF ok]
  note t = unat_texel_coords [OF ok c zc i] and t' = unat_texel_coords [OF ok c' zc i']
  from eq have "unat (x2 (GetDDGIProbeTexelCoords data cascadeIndex' probeIndex')) =
      unat (x2 (GetDDGIProbeTexelCoords data cascadeIndex probeIndex))"
    and "unat (y2 (GetDDGIProbeTexelCoords data cascadeIndex' probeIndex')) =
      unat (y2 (GetDDGIProbeTexelCoords data cascadeIndex probeIndex))"
    by simp_all
  then have "unat probeIndex' = unat probeIndex \<and> unat cascadeIndex' = unat cascadeIndex"
    unfolding t t' by (intro nat_texel_inj [OF pos(1) pos(3)])
  then show ?thesis by (simp add: word_unat_eq_iff)
qed

text \<open>
  C6 (as amended).  In a grid with positive probe counts whose probe count \<open>X * Y * Z\<close> and
  atlas height \<open>Z * cascadesCount\<close> fit into 32 bits, for every cascade index below
  \<open>cascadesCount\<close>, every probe index below \<open>X * Y * Z\<close>, every resolution (in particular
  \<open>6\<close> and \<open>14\<close>) and every octahedral coordinate in \<open>[-1, 1]\<^sup>2\<close>:
  the block of the probe is the one in column \<open>i mod X + (i div (X * Z)) * X\<close> and row
  \<open>(i div X) mod Z + cascade * Z\<close> of the atlas, it lies inside the atlas, and no other
  valid pair of cascade and probe has the same block; evaluated in exact arithmetic, the
  UV of \<open>GetDDGIProbeUV\<close> scaled by the atlas pixel size is
  \<open>block * blockSize + blockSize / 2 + octahedral * resolution / 2\<close> with
  \<open>blockSize = resolution + 2\<close>, which lies strictly inside the block and at least one
  texel away from its edges.  The distance of one texel is attained at the coordinates
  \<open>-1\<close> and \<open>1\<close>, so the binary32 value can fall inside the border by rounding.
\<close>

theorem C6_probe_uv_inside_block:
  assumes ok: "counts_ok data"
    and c: "cascadeIndex < CascadesCount data"
    and zc: "unat (z3 (ProbesCounts data)) * unat (CascadesCount data) < 2 ^ 32"
    and i: "unat probeIndex < unat (x3 (ProbesCounts data)) * unat (y3 (ProbesCounts data)) *
              unat (z3 (ProbesCounts data))"
    and ox: "- 1 \<le> x2 octahedralCoords" "x2 octahedralCoords \<le> 1"
    and oy: "- 1 \<le> y2 octahedralCoords" "y2 octahedralCoords \<le> 1"
  shows "unat (x2 (GetDDGIProbeTexelCoords data cascadeIndex probeIndex)) =
           unat probeIndex mod unat (x3 (ProbesCounts data)) +
           unat probeIndex div (unat (x3 (ProbesCounts data)) * unat (z3 (ProbesCounts data))) *
             unat (x3 (ProbesCounts data)) \<and>
         unat (y2 (GetDDGIProbeTexelCoords data cascadeIndex probeIndex)) =
           unat probeIndex div unat (x3 (ProbesCounts data)) mod unat (z3 (ProbesCounts data)) +
           unat cascadeIndex * unat (z3 (ProbesCounts data)) \<and>
         unat (x2 (GetDDGIProbeTexelCoords data cascadeIndex probeIndex)) <
           unat (x3 (ProbesCounts data)) * unat (y3 (ProbesCounts data)) \<and>
         unat (y2 (GetDDGIProbeTexelCoords data cascadeIndex probeIndex)) <
           unat (z3 (ProbesCounts data)) * unat (CascadesCount data) \<and>
         (cascadeIndex' < CascadesCount data \<and>
          unat probeIndex' < unat (x3 (ProbesCounts data)) * unat (y3 (ProbesCounts data)) *
              unat (z3 (ProbesCounts data)) \<and>
          GetDDGIProbeTexelCoords data cascadeIndex' probeIndex' =
            GetDDGIProbeTexelCoords data cascadeIndex probeIndex \<longrightarrow>
            cascadeIndex' = cascadeIndex \<and> probeIndex' = probeIndex) \<and>
         x2 (GetDDGIProbeUV data cascadeIndex probeIndex octahedralCoords resolution) *
           x2 (atlasPixelSize data resolution) =
           real (unat (x2 (GetDDGIProbeTexelCoords data cascadeIndex probeIndex))) *
             (real (unat resolution) + 2) + (real (unat resolution) + 2) * 0.5 +
             x2 octahedralCoords * (real (unat resolution) * 0.5) \<and>
         y2 (GetDDGIProbeUV data cascadeIndex probeIndex octahedralCoords resolution) *
           y2 (atlasPixelSize data resolution) =
           real (unat (y2 (GetDDGIProbeTexelCoords data cascadeIndex probeIndex))) *
             (real (unat resolution) + 2) + (real (unat resolution) + 2) * 0.5 +
             y2 octahedralCoords * (real (unat resolution) * 0.5) \<and>
         insideBlockInterior (unat (x2 (GetDDGIProbeTexelCoords data cascadeIndex probeIndex)))
           (real (unat resolution) + 2)
           (x2 (GetDDGIProbeUV data cascadeIndex probeIndex octahedralCoords resolution) *
            x2 (atlasPixelSize data resolution)) \<and>
         insideBlockInterior (unat (y2 (GetDDGIProbeTexelCoords data cascadeIndex probeIndex)))
           (real (unat resolution) + 2)
           (y2 (GetDDGIProbeUV data cascadeIndex probeIndex octahedralCoords resolution) *
            y2 (atlasPixelSize data resolution))"
proof -
  note layout = unat_texel_coords [OF ok c zc i]
  note pixel = probe_uv_pixel [OF ok c zc, of probeIndex octahedralCoords resolution]
  note inner = probe_uv_interior [OF ok c zc i ox oy, of resolution]
  have own: "cascadeIndex' = cascadeIndex \<and> probeIndex' = probeIndex"
    if "cascadeIndex' < CascadesCount data \<and>
          unat probeIndex' < unat (x3 (ProbesCounts data)) * unat (y3 (ProbesCounts data)) *
              unat (z3 (ProbesCounts data)) \<and>
          GetDDGIProbeTexelCoords data cascadeIndex' probeIndex' =
            GetDDGIProbeTexelCoords data cascadeIndex probeIndex"
    using that by (intro texel_coords_inj [OF ok zc c _ i]) simp_all
  from layout pixel inner own show ?thesis by blast
qed

theorem C6_probe_uv_inside_block_witness:
  "counts_ok small_grid \<and> (0 :: uint) < CascadesCount small_grid \<and>
   unat (z3 (ProbesCounts small_grid)) * unat (CascadesCount small_grid) < 2 ^ 32 \<and>
   unat (17 :: uint) < unat (x3 (ProbesCounts small_grid)) * unat (y3 (ProbesCounts small_grid)) *
                       unat (z3 (ProbesCounts small_grid)) \<and>
   - 1 \<le> x2 (Vec2 1 (- 1) :: float vec2) \<and> x2 (Vec2 1 (- 1) :: float vec2) \<le> 1 \<and>
   - 1 \<le> y2 (Vec2 1 (- 1) :: float vec2) \<and> y2 (Vec2 1 (- 1) :: float vec2) \<le> 1 \<and>
   unat (x2 (GetDDGIProbeTexelCoords small_grid 0 17)) =
     unat (17 :: uint) mod unat (x3 (ProbesCounts small_grid)) +
     unat (17 :: uint) div (unat (x3 (ProbesCounts small_grid)) * unat (z3 (ProbesCounts small_grid))) *
       unat (x3 (ProbesCounts small_grid)) \<and>
   unat (y2 (GetDDGIProbeTexelCoords small_grid 0 17)) =
     unat (17 :: uint) div unat (x3 (ProbesCounts small_grid)) mod unat (z3 (ProbesCounts small_grid)) +
     unat (0 :: uint) * unat (z3 (ProbesCounts small_grid)) \<and>
   insideBlockInterior (unat (x2 (GetDDGIProbeTexelCoords small_grid 0 17)))
     (real (unat DDGI_PROBE_RESOLUTION_DISTANCE) + 2)
     (x2 (GetDDGIProbeUV small_grid 0 17 (Vec2 1 (- 1)) DDGI_PROBE_RESOLUTION_DISTANCE) *
      x2 (atlasPixelSize small_grid DDGI_PROBE_RESOLUTION_DISTANCE)) \<and>
   insideBlockInterior (unat (y2 (GetDDGIProbeTexelCoords small_grid 0 17)))
     (real (unat DDGI_PROBE_RESOLUTION_DISTANCE) + 2)
     (y2 (GetDDGIProbeUV small_grid 0 17 (Vec2 1 (- 1)) DDGI_PROBE_RESOLUTION_DISTANCE) *
      y2 (atlasPixelSize small_grid DDGI_PROBE_RESOLUTION_DISTANCE)) \<and>
   unat (9 :: uint) < unat (x3 (ProbesCounts small_grid)) * unat (y3 (ProbesCounts small_grid)) *
                      unat (z3 (ProbesCounts small_grid)) \<and>
   GetDDGIProbeTexelCoords small_grid 0 9 \<noteq> GetDDGIProbeTexelCoords small_grid 0 17"
proof -
  have h: "(0 :: uint) < CascadesCount small_grid"
    "unat (z3 (ProbesCounts small_grid)) * unat (CascadesCount small_grid) < 2 ^ 32"
    "unat (17 :: uint) < unat (x3 (ProbesCounts small_grid)) *
       unat (y3 (ProbesCounts small_grid)) * unat (z3 (ProbesCounts small_grid))"
    by (simp_all add: small_grid_def grid_data_def)
  have o: "- 1 \<le> x2 (Vec2 1 (- 1) :: float vec2)" "x2 (Vec2 1 (- 1) :: float vec2) \<le> 1"
    "- 1 \<le> y2 (Vec2 1 (- 1) :: float vec2)" "y2 (Vec2 1 (- 1) :: float vec2) \<le> 1"
    by simp_all
  have other: "unat (9 :: uint) < unat (x3 (ProbesCounts small_grid)) *
        unat (y3 (ProbesCounts small_grid)) * unat (z3 (ProbesCounts small_grid))"
    by (simp add: small_grid_def grid_data_def)
  have ne: "\<not> ((0 :: uint) = 0 \<and> (9 :: uint) = 17)"
    by simp
  note t = C6_probe_uv_inside_block [OF small_grid_ok h o,
      of 0 9 DDGI_PROBE_RESOLUTION_DISTANCE]
  from t small_grid_ok h o other ne show ?thesis
    by blast
qed

lemma f32_uv_0: "float32 (14) = 14"
  by (rule trans [OF float32_eq [where e = "3" and m = "14680064"]])
     (simp_all add: pow2_def round_ties_even_def)

lemma f32_uv_1: "float32 (16) = 16"
  by (rule trans [OF float32_eq [where e = "4" and m = "8388608"]])
     (simp_all add: pow2_def round_ties_even_def)

lemma f32_uv_2: "float32 (12) = 12"
  by (rule trans [OF float32_eq [where e = "3" and m = "12582912"]])
     (simp_all add: pow2_def round_ties_even_def)

lemma f32_uv_3: "float32 (192) = 192"
  by (rule trans [OF float32_eq [where e = "7" and m = "12582912"]])
     (simp_all add: pow2_def round_ties_even_def)

lemma f32_uv_4: "float32 (2) = 2"
  by (rule trans [OF float32_eq [where e = "1" and m = "8388608"]])
     (simp_all add: pow2_def round_ties_even_def)

lemma f32_uv_5: "float32 (32) = 32"
  by (rule trans [OF float32_eq [where e = "5" and m = "8388608"]])
     (simp_all add: pow2_def round_ties_even_def)

lemma f32_uv_6: "float32 (1) = 1"
  by (rule trans [OF float32_eq [where e = "0" and m = "8388608"]])
     (simp_all add: pow2_def round_ties_even_def)

lemma f32_uv_7: "float32 (8) = 8"
  by (rule trans [OF float32_eq [where e = "3" and m = "8388608"]])
     (simp_all add: pow2_def round_ties_even_def)

lemma f32_uv_8: "float32 (24) = 24"
  by (rule trans [OF float32_eq [where e = "4" and m = "12582912"]])
     (simp_all add: pow2_def round_ties_even_def)

lemma f32_uv_9: "float32 (7) = 7"
  by (rule trans [OF float32_eq [where e = "2" and m = "14680064"]])
     (simp_all add: pow2_def round_ties_even_def)

lemma f32_uv_10: "float32 (- 7) = - 7"
  by (rule trans [OF float32_eq [where e = "2" and m = "- 14680064"]])
     (simp_all add: pow2_def round_ties_even_def)

lemma f32_uv_11: "float32 (17) = 17"
  by (rule trans [OF float32_eq [where e = "4" and m = "8912896"]])
     (simp_all add: pow2_def round_ties_even_def)

lemma f32_uv_12: "float32 (17 / 192) = 11883861 / 134217728"
  by (rule trans [OF float32_eq [where e = "- 4" and m = "11883861"]])
     (simp_all add: pow2_def round_ties_even_def)

lemma f32_uv_13: "float32 (1 / 4) = 1 / 4"
  by (rule trans [OF float32_eq [where e = "- 2" and m = "8388608"]])
     (simp_all add: pow2_def round_ties_even_def)

lemmas f32_uv = f32_uv_0 f32_uv_1 f32_uv_2 f32_uv_3 f32_uv_4 f32_uv_5 f32_uv_6 f32_uv_7 f32_uv_8 f32_uv_9 f32_uv_10 f32_uv_11 f32_uv_12 f32_uv_13

lemma small_grid_texel_1: "GetDDGIProbeTexelCoords small_grid 0 1 = Vec2 1 0"
  by (simp add: GetDDGIProbeTexelCoords_def Let_def small_grid_def grid_data_def udiv_def
      umod_def)

lemma small_grid_uv_f32:
  "x2 (GetDDGIProbeUV_f32 small_grid 0 1 (Vec2 (- 1) 0) DDGI_PROBE_RESOLUTION_DISTANCE) = 11883861 / 134217728"
  unfolding GetDDGIProbeUV_f32_def Let_def small_grid_texel_1
  by (simp add: DDGI_PROBE_RESOLUTION_DISTANCE_def fadd_def fmul_def fdiv_def
      uint_to_float32_def uint_to_float_def small_grid_def grid_data_def float32_def [of 0]
      f32_uv)

lemma wide_atlas_uv:
  "x2 (GetDDGIProbeUV wide_atlas_grid 0 0 (Vec2 0 0) DDGI_PROBE_RESOLUTION_DISTANCE) *
   x2 (atlasPixelSize wide_atlas_grid DDGI_PROBE_RESOLUTION_DISTANCE) = 524296"
  by (simp add: GetDDGIProbeUV_def Let_def GetDDGIProbeTexelCoords_def atlasPixelSize_def
      DDGI_PROBE_RESOLUTION_DISTANCE_def uint_to_float_def wide_atlas_grid_def grid_data_def
      udiv_def umod_def)

text \<open>
  C6 as stated fails in two ways.  In the grid \<open>(65537, 65536, 1)\<close> the counts are
  positive and probe \<open>0\<close> of cascade \<open>0\<close> is valid, but the unsigned product \<open>X * Y\<close>
  wraps around to \<open>65536\<close>: the UV scaled by the atlas pixel size is \<open>524296\<close>, far
  outside the block of the probe.  In the grid \<open>(4, 3, 2)\<close>, probe \<open>1\<close> has the block
  \<open>[16, 32]\<close> along x at resolution \<open>14\<close>; at the octahedral coordinate \<open>-1\<close> the exact
  pixel coordinate is \<open>17\<close>, the binary32 division rounds the UV down to
  \<open>11883861 / 2^27\<close>, and the position this UV denotes in the atlas, \<open>16.9999995...\<close>,
  lies inside the border texel.  The scaling by the atlas pixel size is the exact product:
  it is the position the sampler addresses, not a computation of the shader.
\<close>

theorem C6_atlas_counterexample:
  "x3 (ProbesCounts wide_atlas_grid) \<noteq> 0 \<and> y3 (ProbesCounts wide_atlas_grid) \<noteq> 0 \<and>
   z3 (ProbesCounts wide_atlas_grid) \<noteq> 0 \<and> (0 :: uint) < CascadesCount wide_atlas_grid \<and>
   unat (0 :: uint) < unat (x3 (ProbesCounts wide_atlas_grid)) *
     unat (y3 (ProbesCounts wide_atlas_grid)) * unat (z3 (ProbesCounts wide_atlas_grid)) \<and>
   GetDDGIProbeTexelCoords wide_atlas_grid 0 0 = Vec2 0 0 \<and>
   x2 (GetDDGIProbeUV wide_atlas_grid 0 0 (Vec2 0 0) DDGI_PROBE_RESOLUTION_DISTANCE) *
     x2 (atlasPixelSize wide_atlas_grid DDGI_PROBE_RESOLUTION_DISTANCE) = 524296 \<and>
   \<not> insideBlockInterior (unat (x2 (GetDDGIProbeTexelCoords wide_atlas_grid 0 0)))
       (real (unat DDGI_PROBE_RESOLUTION_DISTANCE) + 2)
       (x2 (GetDDGIProbeUV wide_atlas_grid 0 0 (Vec2 0 0) DDGI_PROBE_RESOLUTION_DISTANCE) *
        x2 (atlasPixelSize wide_atlas_grid DDGI_PROBE_RESOLUTION_DISTANCE)) \<and>
   counts_ok small_grid \<and> (0 :: uint) < CascadesCount small_grid \<and>
   unat (1 :: uint) < unat (x3 (ProbesCounts small_grid)) *
     unat (y3 (ProbesCounts small_grid)) * unat (z3 (ProbesCounts small_grid)) \<and>
   GetDDGIProbeTexelCoords small_grid 0 1 = Vec2 1 0 \<and>
   x2 (GetDDGIProbeUV small_grid 0 1 (Vec2 (- 1) 0) DDGI_PROBE_RESOLUTION_DISTANCE) *
     x2 (atlasPixelSize small_grid DDGI_PROBE_RESOLUTION_DISTANCE) = 17 \<and>
   x2 (GetDDGIProbeUV_f32 small_grid 0 1 (Vec2 (- 1) 0) DDGI_PROBE_RESOLUTION_DISTANCE) =
     11883861 / 134217728 \<and>
   x2 (GetDDGIProbeUV_f32 small_grid 0 1 (Vec2 (- 1) 0) DDGI_PROBE_RESOLUTION_DISTANCE) *
     x2 (atlasPixelSize small_grid DDGI_PROBE_RESOLUTION_DISTANCE) < 17 \<and>
   \<not> insideBlockInterior (unat (x2 (GetDDGIProbeTexelCoords small_grid 0 1)))
       (real (unat DDGI_PROBE_RESOLUTION_DISTANCE) + 2)
       (x2 (GetDDGIProbeUV_f32 small_grid 0 1 (Vec2 (- 1) 0) DDGI_PROBE_RESOLUTION_DISTANCE) *
        x2 (atlasPixelSize small_grid DDGI_PROBE_RESOLUTION_DISTANCE))"
proof -
  have wide: "x3 (ProbesCounts wide_atlas_grid) \<noteq> 0" "y3 (ProbesCounts wide_atlas_grid) \<noteq> 0"
    "z3 (ProbesCounts wide_atlas_grid) \<noteq> 0" "(0 :: uint) < CascadesCount wide_atlas_grid"
    "unat (0 :: uint) < unat (x3 (ProbesCounts wide_atlas_grid)) *
       unat (y3 (ProbesCounts wide_atlas_grid)) * unat (z3 (ProbesCounts wide_atlas_grid))"
    by (simp_all add: wide_atlas_grid_def grid_data_def)
  have wt: "GetDDGIProbeTexelCoords wide_atlas_grid 0 0 = Vec2 0 0"
    by (simp add: GetDDGIProbeTexelCoords_def Let_def wide_atlas_grid_def grid_data_def
        udiv_def umod_def)
  note wu = wide_atlas_uv
  have w: "\<not> insideBlockInterior (unat (x2 (GetDDGIProbeTexelCoords wide_atlas_grid 0 0)))
       (real (unat DDGI_PROBE_RESOLUTION_DISTANCE) + 2)
       (x2 (GetDDGIProbeUV wide_atlas_grid 0 0 (Vec2 0 0) DDGI_PROBE_RESOLUTION_DISTANCE) *
        x2 (atlasPixelSize wide_atlas_grid DDGI_PROBE_RESOLUTION_DISTANCE))"
    unfolding wide_atlas_uv wt
    by (simp add: insideBlockInterior_def DDGI_PROBE_RESOLUTION_DISTANCE_def)
  have small: "(0 :: uint) < CascadesCount small_grid"
    "unat (1 :: uint) < unat (x3 (ProbesCounts small_grid)) *
       unat (y3 (ProbesCounts small_grid)) * unat (z3 (ProbesCounts small_grid))"
    by (simp_all add: small_grid_def grid_data_def)
  have zc: "unat (z3 (ProbesCounts small_grid)) * unat (CascadesCount small_grid) < 2 ^ 32"
    by (simp add: small_grid_def grid_data_def)
  have exact: "x2 (GetDDGIProbeUV small_grid 0 1 (Vec2 (- 1) 0) DDGI_PROBE_RESOLUTION_DISTANCE) *
     x2 (atlasPixelSize small_grid DDGI_PROBE_RESOLUTION_DISTANCE) = 17"
    unfolding probe_uv_pixel(1) [OF small_grid_ok small(1) zc] small_grid_texel_1
    by (simp add: DDGI_PROBE_RESOLUTION_DISTANCE_def)
  note su = small_grid_uv_f32
  have lt: "x2 (GetDDGIProbeUV_f32 small_grid 0 1 (Vec2 (- 1) 0) DDGI_PROBE_RESOLUTION_DISTANCE) *
     x2 (atlasPixelSize small_grid DDGI_PROBE_RESOLUTION_DISTANCE) < 17"
    unfolding small_grid_uv_f32
    by (simp add: DDGI_PROBE_RESOLUTION_DISTANCE_def atlasPixelSize_def
        small_grid_def grid_data_def)
  have s: "\<not> insideBlockInterior (unat (x2 (GetDDGIProbeTexelCoords small_grid 0 1)))
       (real (unat DDGI_PROBE_RESOLUTION_DISTANCE) + 2)
       (x2 (GetDDGIProbeUV_f32 small_grid 0 1 (Vec2 (- 1) 0) DDGI_PROBE_RESOLUTION_DISTANCE) *
        x2 (atlasPixelSize small_grid DDGI_PROBE_RESOLUTION_DISTANCE))"
    unfolding small_grid_uv_f32 small_grid_texel_1
    by (simp add: insideBlockInterior_def DDGI_PROBE_RESOLUTION_DISTANCE_def atlasPixelSize_def
        small_grid_def grid_data_def)
  from wide wt wu w small_grid_ok small small_grid_texel_1 exact su lt s show ?thesis
    by blast
qed

section \<open>The weight of one probe\<close>

lemma dot3_cauchy_schwarz: "(dot3 a b)\<^sup>2 \<le> dot3 a a * dot3 b b"
proof -
  have "dot3 a a * dot3 b b - (dot3 a b)\<^sup>2 =
          (x3 a * y3 b - y3 a * x3 b)\<^sup>2 + (y3 a * z3 b - z3 a * y3 b)\<^sup>2 +
          (z3 a * x3 b - x3 a * z3 b)\<^sup>2"
    by (simp add: dot3_def power2_eq_square algebra_simps)
  moreover have "0 \<le> (x3 a * y3 b - y3 a * x3 b)\<^sup>2 + (y3 a * z3 b - z3 a * y3 b)\<^sup>2 +
          (z3 a * x3 b - x3 a * z3 b)\<^sup>2"
    by simp
  ultimately show ?thesis by linarith
qed

lemma dot3_self_nonneg: "0 \<le> dot3 v v"
  by (simp add: dot3_def)

lemma dot3_normalize3_self: "dot3 (normalize3 v) (normalize3 v) \<le> 1"
proof (cases "dot3 v v = 0")
  case True
  then show ?thesis by (simp add: normalize3_def length3_def dot3_def vec3.map_sel)
next
  case False
  with dot3_self_nonneg [of v] have pos: "0 < dot3 v v" by linarith
  have "dot3 (normalize3 v) (normalize3 v) = dot3 v v / (length3 v * length3 v)"
    by (simp add: normalize3_def dot3_def add_divide_distrib vec3.map_sel)
  also have "length3 v * length3 v = dot3 v v"
    using pos by (simp add: length3_def)
  finally show ?thesis using pos by simp
qed

lemma dot3_unit_bound:
  assumes "length3 n = 1"
  shows "\<bar>dot3 (normalize3 v) n\<bar> \<le> 1"
proof -
  from assms have n: "dot3 n n = 1" by (simp add: length3_def)
  have "(dot3 (normalize3 v) n)\<^sup>2 \<le> dot3 (normalize3 v) (normalize3 v) * dot3 n n"
    by (rule dot3_cauchy_schwarz)
  also have "\<dots> \<le> 1" using dot3_normalize3_self [of v] by (simp add: n)
  finally have "(dot3 (normalize3 v) n)\<^sup>2 \<le> 1\<^sup>2" by simp
  then have "\<bar>dot3 (normalize3 v) n\<bar> \<le> \<bar>1\<bar>" by (simp only: abs_le_square_iff)
  then show ?thesis by simp
qed

lemma backfaceWeight_bounds:
  assumes "length3 n = 1"
  shows "0 \<le> backfaceWeight (normalize3 v) n" "backfaceWeight (normalize3 v) n \<le> 1"
proof -
  let ?t = "dot3 (normalize3 v) n * 0.5 + 0.5"
  from dot3_unit_bound [OF assms, of v] have t: "0 \<le> ?t" "?t \<le> 1" by (simp_all add: abs_le_iff)
  show "0 \<le> backfaceWeight (normalize3 v) n" by (simp add: backfaceWeight_def Square_def)
  have "?t * ?t \<le> 1 * 1" using t by (intro mult_mono) simp_all
  then show "backfaceWeight (normalize3 v) n \<le> 1" by (simp add: backfaceWeight_def Square_def)
qed

lemma backfaceWeight_nonneg: "0 \<le> backfaceWeight u n"
  by (simp add: backfaceWeight_def Square_def)

lemma visibilityFactor_bounds:
  assumes "mean < d"
  shows "0.05 \<le> visibilityFactor d mean meanSquare" "visibilityFactor d mean meanSquare \<le> 1"
proof -
  let ?v = "\<bar>mean\<^sup>2 - meanSquare\<bar>"
  let ?c = "?v / (?v + (d - mean)\<^sup>2)"
  from assms have "0 < (d - mean)\<^sup>2" by simp
  then have den: "0 < ?v + (d - mean)\<^sup>2" by (simp add: add_nonneg_pos)
  have c0: "0 \<le> ?c" using den by simp
  have c1: "?c \<le> 1" using den by (simp add: divide_le_eq)
  have "?c ^ 3 \<le> 1" using c0 c1 by (rule power_le_one)
  then show "visibilityFactor d mean meanSquare \<le> 1"
    by (simp add: visibilityFactor_def Let_def)
  show "0.05 \<le> visibilityFactor d mean meanSquare"
    by (simp add: visibilityFactor_def Let_def)
qed

lemma visibilityWeight_eq:
  "visibilityWeight w d s =
     (if d > x4 s * 2 then w * visibilityFactor d (x4 s * 2) (y4 s * 2) else w)"
  by (simp add: visibilityWeight_def visibilityFactor_def Let_def Square_def power2_eq_square
      power3_eq_cube)

lemma visibilityWeight_bounds:
  assumes "0 \<le> w"
  shows "0 \<le> visibilityWeight w d s" "visibilityWeight w d s \<le> w"
proof -
  show "0 \<le> visibilityWeight w d s"
  proof (cases "d > x4 s * 2")
    case True
    from visibilityFactor_bounds(1) [OF True, of "y4 s * 2"]
    have "0 \<le> visibilityFactor d (x4 s * 2) (y4 s * 2)" by simp
    with assms True show ?thesis by (simp only: visibilityWeight_eq if_True mult_nonneg_nonneg)
  next
    case False
    with assms show ?thesis by (simp only: visibilityWeight_eq if_False)
  qed
  show "visibilityWeight w d s \<le> w"
  proof (cases "d > x4 s * 2")
    case True
    from visibilityFactor_bounds(2) [OF True, of "y4 s * 2"] assms
    have "w * visibilityFactor d (x4 s * 2) (y4 s * 2) \<le> w" by (rule mult_left_le)
    with True show ?thesis by (simp only: visibilityWeight_eq if_True)
  next
    case False
    then show ?thesis by (simp only: visibilityWeight_eq if_False)
  qed
qed

lemma adjustWeight_bounds:
  shows "0 < adjustWeight w" and "w \<le> 1 \<Longrightarrow> adjustWeight w \<le> 1"
proof -
  define m where "m = max w 0.000001"
  have m: "0 < m" by (simp add: m_def)
  have "1 / (0.2 * 0.2) = (25 :: real)" by simp
  then have eq: "adjustWeight w = (if m < 0.2 then m * (m * m * 25) else m)"
    by (simp only: adjustWeight_def Let_def Square_def m_def)
  show "0 < adjustWeight w"
  proof (cases "m < 0.2")
    case True
    have "0 < m * (m * m * 25)" using m by simp
    with True show ?thesis by (simp only: eq if_True)
  next
    case False
    with m show ?thesis by (simp only: eq if_False)
  qed
  assume w: "w \<le> 1"
  then have m1: "m \<le> 1" by (simp add: m_def)
  show "adjustWeight w \<le> 1"
  proof (cases "m < 0.2")
    case True
    have "m * m \<le> 0.2 * 0.2" using True m by (intro mult_mono) simp_all
    then have "m * m * 25 \<le> 1" by simp
    moreover have "0 \<le> m * m * 25" using m by simp
    ultimately have "m * (m * m * 25) \<le> 1 * 1" using m m1 by (intro mult_mono) simp_all
    with True show ?thesis by (simp only: eq if_True mult_1)
  next
    case False
    with m1 show ?thesis by (simp only: eq if_False)
  qed
qed

lemma uint_to_float_and_1: "uint_to_float (c AND 1) = 0 \<or> uint_to_float (c AND 1) = 1"
  by (simp add: and_one_eq uint_to_float_def of_bool_def mod_2_eq_odd)

lemma lerp_corner:
  assumes "0 \<le> a" "a \<le> 1" "s = 0 \<or> s = 1"
  shows "0 \<le> lerp (1 - a) a s" "lerp (1 - a) a s \<le> 1"
  using assms by (auto simp add: lerp_def)

lemma saturate_bounds: "0 \<le> saturate v" "saturate v \<le> 1"
  by (simp_all add: saturate_def)

lemma biasAlpha_in_unit: "in_unit (biasAlpha data cascadeIndex worldPosition worldNormal bias)"
  by (simp add: in_unit_def biasAlpha_def Let_def vec3.map_sel saturate_bounds)

lemma trilinearWeight_pos: "0 < w \<Longrightarrow> 0 < trilinearWeight w alpha offset"
  by (simp add: trilinearWeight_def Let_def)

lemma trilinearWeight_le:
  assumes w: "0 \<le> w" "w \<le> 1" and a: "in_unit alpha"
  shows "trilinearWeight w alpha (probeCoordsOffset i) \<le> 1"
proof -
  let ?o = "probeCoordsOffset i"
  let ?tx = "lerp (1 - x3 alpha) (x3 alpha) (uint_to_float (x3 ?o))"
  let ?ty = "lerp (1 - y3 alpha) (y3 alpha) (uint_to_float (y3 ?o))"
  let ?tz = "lerp (1 - z3 alpha) (z3 alpha) (uint_to_float (z3 ?o))"
  have ox: "uint_to_float (x3 ?o) = 0 \<or> uint_to_float (x3 ?o) = 1"
    and oy: "uint_to_float (y3 ?o) = 0 \<or> uint_to_float (y3 ?o) = 1"
    and oz: "uint_to_float (z3 ?o) = 0 \<or> uint_to_float (z3 ?o) = 1"
    by (simp_all only: probeCoordsOffset_def vec3.map_sel vec3.sel uint_to_float_and_1)
  have tx: "0 \<le> ?tx" "?tx \<le> 1" using a ox by (simp_all add: in_unit_def lerp_corner)
  have ty: "0 \<le> ?ty" "?ty \<le> 1" using a oy by (simp_all add: in_unit_def lerp_corner)
  have tz: "0 \<le> ?tz" "?tz \<le> 1" using a oz by (simp_all add: in_unit_def lerp_corner)
  have "?tx * ?ty \<le> 1 * 1" using tx ty by (intro mult_mono) simp_all
  moreover have "0 \<le> ?tx * ?ty" using tx ty by simp
  ultimately have "?tx * ?ty * ?tz \<le> 1 * 1" using tz by (intro mult_mono) simp_all
  then have "max (?tx * ?ty * ?tz) 0.001 \<le> 1" by simp
  moreover have "0 \<le> max (?tx * ?ty * ?tz) 0.001" by simp
  ultimately have "w * max (?tx * ?ty * ?tz) 0.001 \<le> 1 * 1" using w by (intro mult_mono) simp_all
  then show ?thesis by (simp add: trilinearWeight_def Let_def zip3_def)
qed

lemma probeWeight_pos:
  "0 < probeWeight oct data probesDistance cascadeIndex probeIndex worldPosition worldNormal
         biasedPosition alpha probePosition offset"
  unfolding probeWeight_def Let_def
  by (intro trilinearWeight_pos adjustWeight_bounds(1))

lemma probeWeight_le:
  assumes n: "length3 worldNormal = 1" and a: "in_unit alpha"
  shows "probeWeight oct data probesDistance cascadeIndex probeIndex worldPosition worldNormal
           biasedPosition alpha probePosition (probeCoordsOffset i) \<le> 1"
proof -
  let ?b = "backfaceWeight (normalize3 (zip3 (-) probePosition worldPosition)) worldNormal"
  let ?d = "length3 (zip3 (-) probePosition biasedPosition)"
  let ?s = "SampleLevel probesDistance
              (GetDDGIProbeUV data cascadeIndex probeIndex
                 (oct (map_vec3 uminus (normalize3 (zip3 (-) probePosition biasedPosition))))
                 DDGI_PROBE_RESOLUTION_DISTANCE)"
  note b = backfaceWeight_bounds [OF n, of "zip3 (-) probePosition worldPosition"]
  from visibilityWeight_bounds(2) [OF b(1), of ?d ?s] b(2)
  have "visibilityWeight ?b ?d ?s \<le> 1" by linarith
  then have adj: "adjustWeight (visibilityWeight ?b ?d ?s) \<le> 1"
    by (rule adjustWeight_bounds(2))
  have pos: "0 \<le> adjustWeight (visibilityWeight ?b ?d ?s)"
    using adjustWeight_bounds(1) [of "visibilityWeight ?b ?d ?s"] by simp
  show ?thesis
    unfolding probeWeight_def Let_def
    by (rule trilinearWeight_le [OF pos adj a])
qed

lemma cornerStep_inactive:
  assumes "w4 (cornerProbeState data probesState cascadeIndex worldPosition i) = DDGI_PROBE_STATE_INACTIVE"
  shows "cornerStep oct data probesState probesDistance probesIrradiance worldPosition worldNormal
           bias cascadeIndex i irradiance = irradiance"
  using assms by (simp add: cornerStep_def Let_def cornerProbeState_def cornerProbeIndex_def)

lemma cornerStep_active_weight:
  assumes "w4 (cornerProbeState data probesState cascadeIndex worldPosition i) \<noteq> DDGI_PROBE_STATE_INACTIVE"
  shows "\<exists>probePosition.
     w4 (cornerStep oct data probesState probesDistance probesIrradiance worldPosition worldNormal
           bias cascadeIndex i irradiance) =
     w4 irradiance +
       probeWeight oct data probesDistance cascadeIndex
         (cornerProbeIndex data cascadeIndex worldPosition i) worldPosition worldNormal
         (biasedWorldPosition data worldPosition worldNormal bias)
         (biasAlpha data cascadeIndex worldPosition worldNormal bias)
         probePosition (probeCoordsOffset i)"
  using assms by (auto simp add: cornerStep_def Let_def cornerProbeState_def cornerProbeIndex_def)

lemma cornerStep_active_eq:
  assumes "w4 (cornerProbeState data probesState cascadeIndex worldPosition i) \<noteq> DDGI_PROBE_STATE_INACTIVE"
  shows "w4 (cornerStep oct data probesState probesDistance probesIrradiance worldPosition worldNormal
           bias cascadeIndex i irradiance) =
     w4 irradiance +
       probeWeight oct data probesDistance cascadeIndex
         (cornerProbeIndex data cascadeIndex worldPosition i) worldPosition worldNormal
         (biasedWorldPosition data worldPosition worldNormal bias)
         (biasAlpha data cascadeIndex worldPosition worldNormal bias)
         (cornerProbePosition data probesState cascadeIndex worldPosition i) (probeCoordsOffset i)"
  using assms
  by (simp add: cornerStep_def Let_def cornerProbeState_def cornerProbeIndex_def
      cornerProbePosition_def)

text \<open>
  C4.  For an active corner probe, the weight that the iteration of the corner loop adds
  is the trilinear weighting of the adjusted weight \<open>visible\<close>, where \<open>visible\<close> is the
  backface weight after the visibility test: the two channels of the distance sample,
  taken at the direction from the probe to the biased point, are doubled to give
  \<open>(mean, meanSquare)\<close>; when the distance \<open>d\<close> from the biased point to the probe
  exceeds \<open>mean\<close> the backface weight is multiplied by \<open>max(chebyshev\<^sup>3, 0.05)\<close> with
  \<open>chebyshev = variance / (variance + (d - mean)\<^sup>2)\<close> and
  \<open>variance = |mean\<^sup>2 - meanSquare|\<close>, otherwise it is left unchanged.  The factor lies
  between \<open>0.05\<close> and \<open>1\<close> whatever the moments are, and \<open>visible\<close> is never negative.
\<close>

theorem C4_visibility_stage:
  assumes act: "w4 (cornerProbeState data probesState cascadeIndex worldPosition i) \<noteq>
                DDGI_PROBE_STATE_INACTIVE"
  shows "let probePosition = cornerProbePosition data probesState cascadeIndex worldPosition i;
             biasedPosition = biasedWorldPosition data worldPosition worldNormal bias;
             d = length3 (zip3 (-) probePosition biasedPosition);
             distanceSample =
               SampleLevel probesDistance
                 (GetDDGIProbeUV data cascadeIndex
                    (cornerProbeIndex data cascadeIndex worldPosition i)
                    (oct (map_vec3 uminus (normalize3 (zip3 (-) probePosition biasedPosition))))
                    DDGI_PROBE_RESOLUTION_DISTANCE);
             mean = x4 distanceSample * 2;
             meanSquare = y4 distanceSample * 2;
             variance = \<bar>mean\<^sup>2 - meanSquare\<bar>;
             chebyshev = variance / (variance + (d - mean)\<^sup>2);
             backface = backfaceWeight (normalize3 (zip3 (-) probePosition worldPosition)) worldNormal;
             visible = (if d > mean then backface * max (chebyshev ^ 3) 0.05 else backface)
         in w4 (cornerStep oct data probesState probesDistance probesIrradiance worldPosition
                  worldNormal bias cascadeIndex i irradiance) =
              w4 irradiance +
                trilinearWeight (adjustWeight visible)
                  (biasAlpha data cascadeIndex worldPosition worldNormal bias)
                  (probeCoordsOffset i) \<and>
            0 \<le> visible \<and>
            (d > mean \<longrightarrow> 0.05 \<le> max (chebyshev ^ 3) 0.05 \<and> max (chebyshev ^ 3) 0.05 \<le> 1)"
proof -
  let ?p = "cornerProbePosition data probesState cascadeIndex worldPosition i"
  let ?bp = "biasedWorldPosition data worldPosition worldNormal bias"
  let ?d = "length3 (zip3 (-) ?p ?bp)"
  let ?s = "SampleLevel probesDistance
                 (GetDDGIProbeUV data cascadeIndex
                    (cornerProbeIndex data cascadeIndex worldPosition i)
                    (oct (map_vec3 uminus (normalize3 (zip3 (-) ?p ?bp))))
                    DDGI_PROBE_RESOLUTION_DISTANCE)"
  let ?b = "backfaceWeight (normalize3 (zip3 (-) ?p worldPosition)) worldNormal"
  have vis: "visibilityWeight ?b ?d ?s =
      (if ?d > x4 ?s * 2
       then ?b * max ((\<bar>(x4 ?s * 2)\<^sup>2 - y4 ?s * 2\<bar> /
                        (\<bar>(x4 ?s * 2)\<^sup>2 - y4 ?s * 2\<bar> + (?d - x4 ?s * 2)\<^sup>2)) ^ 3) 0.05
       else ?b)"
    by (simp only: visibilityWeight_eq visibilityFactor_def Let_def)
  have step: "w4 (cornerStep oct data probesState probesDistance probesIrradiance worldPosition
                  worldNormal bias cascadeIndex i irradiance) =
      w4 irradiance +
        trilinearWeight (adjustWeight (visibilityWeight ?b ?d ?s))
          (biasAlpha data cascadeIndex worldPosition worldNormal bias) (probeCoordsOffset i)"
    by (simp only: cornerStep_active_eq [OF act] probeWeight_def Let_def)
  have nonneg: "0 \<le> visibilityWeight ?b ?d ?s"
    by (rule visibilityWeight_bounds(1) [OF backfaceWeight_nonneg])
  have fac: "0.05 \<le> visibilityFactor ?d (x4 ?s * 2) (y4 ?s * 2) \<and>
             visibilityFactor ?d (x4 ?s * 2) (y4 ?s * 2) \<le> 1" if "?d > x4 ?s * 2"
    using visibilityFactor_bounds [OF that] by blast
  show ?thesis
    unfolding Let_def
    using step nonneg fac
    by (simp only: vis visibilityFactor_def Let_def) blast
qed

theorem C4_visibility_stage_witness:
  "w4 (cornerProbeState cube_grid (uniform_texture (Vec4 0 0 0 0)) 0 (Vec3 0 0 0) 3) \<noteq>
     DDGI_PROBE_STATE_INACTIVE \<and>
   (let probePosition =
          cornerProbePosition cube_grid (uniform_texture (Vec4 0 0 0 0)) 0 (Vec3 0 0 0) 3;
        biasedPosition = biasedWorldPosition cube_grid (Vec3 0 0 0) (Vec3 0 0 1) 0;
        d = length3 (zip3 (-) probePosition biasedPosition);
        distanceSample =
          SampleLevel (uniform_texture (Vec4 (1 / 2) 1 0 0))
            (GetDDGIProbeUV cube_grid 0 (cornerProbeIndex cube_grid 0 (Vec3 0 0 0) 3)
               (flat_oct (map_vec3 uminus (normalize3 (zip3 (-) probePosition biasedPosition))))
               DDGI_PROBE_RESOLUTION_DISTANCE);
        mean = x4 distanceSample * 2;
        meanSquare = y4 distanceSample * 2;
        variance = \<bar>mean\<^sup>2 - meanSquare\<bar>;
        chebyshev = variance / (variance + (d - mean)\<^sup>2);
        backface = backfaceWeight (normalize3 (zip3 (-) probePosition (Vec3 0 0 0))) (Vec3 0 0 1);
        visible = (if d > mean then backface * max (chebyshev ^ 3) 0.05 else backface)
    in w4 (cornerStep flat_oct cube_grid (uniform_texture (Vec4 0 0 0 0))
             (uniform_texture (Vec4 (1 / 2) 1 0 0)) (uniform_texture (Vec4 1 1 1 1))
             (Vec3 0 0 0) (Vec3 0 0 1) 0 0 3 (Vec4 0 0 0 0)) =
         w4 (Vec4 0 0 0 0 :: float vec4) +
           trilinearWeight (adjustWeight visible)
             (biasAlpha cube_grid 0 (Vec3 0 0 0) (Vec3 0 0 1) 0) (probeCoordsOffset 3) \<and>
       0 \<le> visible \<and>
       (d > mean \<longrightarrow> 0.05 \<le> max (chebyshev ^ 3) 0.05 \<and> max (chebyshev ^ 3) 0.05 \<le> 1))"
proof -
  have act: "w4 (cornerProbeState cube_grid (uniform_texture (Vec4 0 0 0 0)) 0 (Vec3 0 0 0) 3)
     \<noteq> DDGI_PROBE_STATE_INACTIVE"
    by (simp add: cornerProbeState_def loadProbeState_def Let_def uniform_texture_def
        DDGI_PROBE_STATE_INACTIVE_def)
  show ?thesis
    by (rule conjI [OF act C4_visibility_stage [OF act]])
qed

text \<open>
  C9.  For an active corner probe and a unit normal, the weight that one iteration of the
  corner loop adds to the accumulated weight is strictly positive and at most \<open>1\<close>: the
  backface factor, the visibility factor and the trilinear factor are each at most \<open>1\<close>,
  and neither the floor \<open>0.000001\<close> nor the cubic boost below \<open>0.2\<close> exceeds \<open>1\<close>.  The
  interpolation fractions are those the sampler computes, which lie in \<open>[0, 1]\<close>; no
  condition on the distance moments is needed.
\<close>

theorem C9_probe_weight_bounds:
  assumes n: "length3 worldNormal = 1"
    and act: "w4 (cornerProbeState data probesState cascadeIndex worldPosition i) \<noteq> DDGI_PROBE_STATE_INACTIVE"
  shows "0 < w4 (cornerStep oct data probesState probesDistance probesIrradiance worldPosition
                   worldNormal bias cascadeIndex i irradiance) - w4 irradiance \<and>
         w4 (cornerStep oct data probesState probesDistance probesIrradiance worldPosition
                   worldNormal bias cascadeIndex i irradiance) - w4 irradiance \<le> 1"
proof -
  from cornerStep_active_weight [OF act] obtain p where
    "w4 (cornerStep oct data probesState probesDistance probesIrradiance worldPosition worldNormal
           bias cascadeIndex i irradiance) =
     w4 irradiance +
       probeWeight oct data probesDistance cascadeIndex
         (cornerProbeIndex data cascadeIndex worldPosition i) worldPosition worldNormal
         (biasedWorldPosition data worldPosition worldNormal bias)
         (biasAlpha data cascadeIndex worldPosition worldNormal bias)
         p (probeCoordsOffset i)"
    by blast
  moreover note probeWeight_pos [of oct data probesDistance cascadeIndex
      "cornerProbeIndex data cascadeIndex worldPosition i" worldPosition worldNormal
      "biasedWorldPosition data worldPosition worldNormal bias"
      "biasAlpha data cascadeIndex worldPosition worldNormal bias" p "probeCoordsOffset i"]
  moreover note probeWeight_le [OF n biasAlpha_in_unit, of oct data probesDistance cascadeIndex
      "cornerProbeIndex data cascadeIndex worldPosition i" worldPosition
      "biasedWorldPosition data worldPosition worldNormal bias"
      data cascadeIndex worldPosition worldNormal bias p i]
  ultimately show ?thesis by simp
qed

theorem C9_probe_weight_bounds_witness:
  "length3 (Vec3 0 0 1) = 1 \<and>
   w4 (cornerProbeState cube_grid (uniform_texture (Vec4 0 0 0 0)) 0 (Vec3 0 0 0) 3)
     \<noteq> DDGI_PROBE_STATE_INACTIVE \<and>
   0 < w4 (cornerStep flat_oct cube_grid (uniform_texture (Vec4 0 0 0 0))
             (uniform_texture (Vec4 100 10000 0 0)) (uniform_texture (Vec4 1 1 1 1))
             (Vec3 0 0 0) (Vec3 0 0 1) 0 0 3 (Vec4 0 0 0 0)) - w4 (Vec4 0 0 0 0 :: float vec4) \<and>
   w4 (cornerStep flat_oct cube_grid (uniform_texture (Vec4 0 0 0 0))
             (uniform_texture (Vec4 100 10000 0 0)) (uniform_texture (Vec4 1 1 1 1))
             (Vec3 0 0 0) (Vec3 0 0 1) 0 0 3 (Vec4 0 0 0 0)) - w4 (Vec4 0 0 0 0 :: float vec4) \<le> 1"
proof -
  have n: "length3 (Vec3 0 0 1) = 1"
    by (simp add: length3_def dot3_def)
  have act: "w4 (cornerProbeState cube_grid (uniform_texture (Vec4 0 0 0 0)) 0 (Vec3 0 0 0) 3)
     \<noteq> DDGI_PROBE_STATE_INACTIVE"
    by (simp add: cornerProbeState_def loadProbeState_def Let_def uniform_texture_def
        DDGI_PROBE_STATE_INACTIVE_def)
  from C9_probe_weight_bounds [OF n act, of flat_oct "uniform_texture (Vec4 100 10000 0 0)"
      "uniform_texture (Vec4 1 1 1 1)" 0 "Vec4 0 0 0 0"] n act
  show ?thesis by blast
qed

section \<open>The selected cascade\<close>

lemma uint_to_float_pred: "n \<noteq> 0 \<Longrightarrow> uint_to_float (n - 1) = real (unat n) - 1"
proof -
  assume n: "n \<noteq> 0"
  then have "0 < unat n" by (simp add: unat_gt_0)
  moreover have "unat (n - 1) = unat n - 1" using n by (rule unat_minus_one)
  ultimately show ?thesis by (simp add: uint_to_float_def of_nat_diff)
qed

lemma probesOrigin_eq: "probesOrigin data c = scrolledOrigin data c"
  by (simp add: probesOrigin_def scrolledOrigin_def zip3_def vec3.map_sel int_to_float_def
      probesSpacing_def add.commute)

lemma probesExtent_eq:
  assumes "counts_positive data"
  shows "probesExtent data c =
     map_vec3 (\<lambda>n. 0.5 * probesSpacing data c * (real (unat n) - 1)) (ProbesCounts data)"
  using assms
  by (cases "ProbesCounts data") (simp add: probesExtent_def counts_positive_def uint_to_float_pred)

lemma cascadeWeight_eq:
  assumes "counts_positive data"
  shows "cascadeWeight data c worldPosition = scrolledFadeWeight data c worldPosition"
  by (simp add: cascadeWeight_def scrolledFadeWeight_def fadeWeight_def Let_def saturate_def
      probesOrigin_eq probesExtent_eq [OF assms] probesSpacing_def mult.commute)

lemma unat_word_succ:
  fixes i m :: uint
  assumes "i < m"
  shows "unat (i + 1) = Suc (unat i)"
proof -
  from assms have "unat i < unat m" by (simp add: word_less_nat_alt)
  moreover have "unat m < 2 ^ 32" using unsigned_less [of m, where 'a = nat] by simp
  ultimately have "unat i + unat (1 :: uint) < 2 ^ LENGTH(32)" by simp
  then have "unat (i + 1) = unat i + unat (1 :: uint)" by (simp only: unat_add_lem)
  then show ?thesis by simp
qed

lemma selectCascade_first:
  assumes "cascadeIndex \<le> CascadesCount data"
  shows "selectCascade data worldPosition dither cascadeIndex \<le> CascadesCount data \<and>
         cascadeIndex \<le> selectCascade data worldPosition dither cascadeIndex \<and>
         (selectCascade data worldPosition dither cascadeIndex < CascadesCount data \<longrightarrow>
            cascadeWeight data (selectCascade data worldPosition dither cascadeIndex) worldPosition
              > dither) \<and>
         (\<forall>j. cascadeIndex \<le> j \<and> j < selectCascade data worldPosition dither cascadeIndex \<longrightarrow>
            \<not> cascadeWeight data j worldPosition > dither)"
  using assms
proof (induction data worldPosition dither cascadeIndex rule: selectCascade.induct)
  case (1 data worldPosition dither cascadeIndex)
  show ?case
  proof (cases "cascadeIndex < CascadesCount data")
    case False
    with "1.prems" have "selectCascade data worldPosition dither cascadeIndex = cascadeIndex"
      by (subst selectCascade.simps) simp
    with "1.prems" False show ?thesis by auto
  next
    case less: True
    show ?thesis
    proof (cases "cascadeWeight data cascadeIndex worldPosition > dither")
      case True
      with less have "selectCascade data worldPosition dither cascadeIndex = cascadeIndex"
        by (subst selectCascade.simps) simp
      with less True show ?thesis by auto
    next
      case False
      with less have eq: "selectCascade data worldPosition dither cascadeIndex =
          selectCascade data worldPosition dither (cascadeIndex + 1)"
        by (subst selectCascade.simps) simp
      have succ: "unat (cascadeIndex + 1) = Suc (unat cascadeIndex)"
        using less by (rule unat_word_succ)
      have le: "cascadeIndex + 1 \<le> CascadesCount data" using less by (rule inc_le)
      note IH = "1.IH" [OF less False le]
      have lo: "cascadeIndex \<le> selectCascade data worldPosition dither (cascadeIndex + 1)"
        using IH succ by (simp add: word_le_nat_alt)
      have none: "\<not> cascadeWeight data j worldPosition > dither"
        if "cascadeIndex \<le> j" "j < selectCascade data worldPosition dither (cascadeIndex + 1)" for j
      proof (cases "j = cascadeIndex")
        case True
        with False show ?thesis by simp
      next
        case False
        with that(1) have "unat cascadeIndex < unat j"
          by (simp add: word_le_nat_alt word_unat_eq_iff)
        then have "cascadeIndex + 1 \<le> j" using succ by (simp add: word_le_nat_alt)
        with IH that(2) show ?thesis by blast
      qed
      from IH lo none show ?thesis unfolding eq by blast
    qed
  qed
qed

text \<open>
  C1 (as amended).  For every world position, every dither value in \<open>[0, 1)\<close> and every
  configuration with one to four cascades and positive probe counts, the sampler examines
  the cascades in ascending index order and selects the first cascade whose fade weight
  \<open>clamp(min-over-axes(extent - |worldPos - origin'|) / fadeDistance, 0, 1)\<close> exceeds the
  dither value, where \<open>origin' = origin + scrollOffset * spacing\<close> is the scrolled origin
  of the cascade, \<open>extent = 0.5 * spacing * (counts - 1)\<close> and
  \<open>fadeDistance = 0.5 * spacing\<close>.  If no cascade has such a weight the result is exactly
  \<open>FallbackIrradiance\<close>; otherwise it is the normalised sum of the corner loop of the
  selected cascade.
\<close>

theorem C1_cascade_selection:
  assumes "cascades_ok data" and pos: "counts_positive data" and "0 \<le> dither" "dither < 1"
  shows "selectCascade data worldPosition dither 0 \<le> CascadesCount data \<and>
     (\<forall>j. j < selectCascade data worldPosition dither 0 \<longrightarrow>
        \<not> scrolledFadeWeight data j worldPosition > dither) \<and>
     (selectCascade data worldPosition dither 0 < CascadesCount data \<longrightarrow>
        scrolledFadeWeight data (selectCascade data worldPosition dither 0) worldPosition
          > dither) \<and>
     ((\<forall>j. j < CascadesCount data \<longrightarrow> \<not> scrolledFadeWeight data j worldPosition > dither) \<longrightarrow>
        SampleDDGIIrradiance oct data probesState probesDistance probesIrradiance worldPosition
          worldNormal bias dither = FallbackIrradiance data) \<and>
     (selectCascade data worldPosition dither 0 \<noteq> CascadesCount data \<longrightarrow>
        SampleDDGIIrradiance oct data probesState probesDistance probesIrradiance worldPosition
          worldNormal bias dither =
        normalizeIrradiance
          (cornerLoop oct data probesState probesDistance probesIrradiance worldPosition
             worldNormal bias (selectCascade data worldPosition dither 0) 0 (Vec4 0 0 0 0)))"
proof -
  let ?k = "selectCascade data worldPosition dither 0"
  have first: "?k \<le> CascadesCount data"
    "?k < CascadesCount data \<longrightarrow> cascadeWeight data ?k worldPosition > dither"
    "\<forall>j. 0 \<le> j \<and> j < ?k \<longrightarrow> \<not> cascadeWeight data j worldPosition > dither"
    using selectCascade_first [of 0 data worldPosition dither] by simp_all
  have none: "?k = CascadesCount data"
    if "\<forall>j. j < CascadesCount data \<longrightarrow> \<not> scrolledFadeWeight data j worldPosition > dither"
  proof (rule ccontr)
    assume "?k \<noteq> CascadesCount data"
    with first(1) have "?k < CascadesCount data" by simp
    with first(2) that show False by (simp add: cascadeWeight_eq [OF pos])
  qed
  show ?thesis
    using first none
    by (auto simp add: cascadeWeight_eq [OF pos] SampleDDGIIrradiance_def Let_def)
qed

lemma two_cascades_select:
  "selectCascade two_cascades (Vec3 3 0 0) (1 / 10) 0 = 1"
proof -
  have w0: "\<not> cascadeWeight two_cascades 0 (Vec3 3 0 0) > 1 / 10"
    by (simp add: cascadeWeight_def Let_def probesSpacing_def probesOrigin_def probesExtent_def
        two_cascades_def cube_grid_def grid_data_def xyz_def zip3_def Min3_def saturate_def
        uint_to_float_def int_to_float_def)
  have w1: "cascadeWeight two_cascades 1 (Vec3 3 0 0) > 1 / 10"
    by (simp add: cascadeWeight_def Let_def probesSpacing_def probesOrigin_def probesExtent_def
        two_cascades_def cube_grid_def grid_data_def xyz_def zip3_def Min3_def saturate_def
        uint_to_float_def int_to_float_def)
  have c: "CascadesCount two_cascades = 2"
    by (simp add: two_cascades_def cube_grid_def grid_data_def)
  have "selectCascade two_cascades (Vec3 3 0 0) (1 / 10) 0 =
        selectCascade two_cascades (Vec3 3 0 0) (1 / 10) 1"
    using w0 by (subst selectCascade.simps) (simp add: c)
  also have "\<dots> = 1"
    using w1 by (subst selectCascade.simps) (simp add: c)
  finally show ?thesis .
qed

theorem C1_cascade_selection_witness:
  "cascades_ok two_cascades \<and> counts_positive two_cascades \<and> (0 :: float) \<le> 1 / 10 \<and>
   (1 / 10 :: float) < 1 \<and>
   selectCascade two_cascades (Vec3 3 0 0) (1 / 10) 0 = 1 \<and>
   \<not> scrolledFadeWeight two_cascades 0 (Vec3 3 0 0) > 1 / 10 \<and>
   scrolledFadeWeight two_cascades 1 (Vec3 3 0 0) > 1 / 10"
proof -
  have ok: "cascades_ok two_cascades" "counts_positive two_cascades"
    by (simp_all add: cascades_ok_def counts_positive_def two_cascades_def cube_grid_def
        grid_data_def)
  have d: "(0 :: float) \<le> 1 / 10" "(1 / 10 :: float) < 1"
    by simp_all
  have c: "CascadesCount two_cascades = 2"
    by (simp add: two_cascades_def cube_grid_def grid_data_def)
  from C1_cascade_selection [OF ok d, of "Vec3 3 0 0"] two_cascades_select ok d c
  show ?thesis by simp
qed

text \<open>
  C1 as stated measures the distance from the configured origin.  In the grid
  scrolled by five cells the point \<open>(0, 0, 0)\<close> has fade weight \<open>1\<close> around the configured
  origin \<open>(0, 0, 0)\<close>, above the dither value \<open>0\<close>, yet the sampler measures from the
  scrolled origin \<open>(10, 0, 0)\<close>, selects no cascade and returns the fallback irradiance.
\<close>

theorem C1_scroll_counterexample:
  "cascades_ok shifted_grid \<and>
   statedFadeWeight shifted_grid 0 (Vec3 0 0 0) > 0 \<and>
   selectCascade shifted_grid (Vec3 0 0 0) 0 0 = CascadesCount shifted_grid \<and>
   SampleDDGIIrradiance flat_oct shifted_grid (uniform_texture (Vec4 0 0 0 0))
     (uniform_texture (Vec4 100 10000 0 0)) (uniform_texture (Vec4 1 1 1 1))
     (Vec3 0 0 0) (Vec3 0 0 1) 0 0 = FallbackIrradiance shifted_grid"
proof -
  have w0: "\<not> cascadeWeight shifted_grid 0 (Vec3 0 0 0) > 0"
    by (simp add: cascadeWeight_def Let_def probesSpacing_def probesOrigin_def probesExtent_def
        shifted_grid_def grid_data_def xyz_def zip3_def Min3_def saturate_def
        uint_to_float_def int_to_float_def)
  have c: "CascadesCount shifted_grid = 1"
    by (simp add: shifted_grid_def grid_data_def)
  have "selectCascade shifted_grid (Vec3 0 0 0) 0 0 = selectCascade shifted_grid (Vec3 0 0 0) 0 1"
    using w0 by (subst selectCascade.simps) (simp add: c)
  also have "\<dots> = 1"
    by (subst selectCascade.simps) (simp add: c)
  finally have sel: "selectCascade shifted_grid (Vec3 0 0 0) 0 0 = CascadesCount shifted_grid"
    by (simp add: c)
  have stated: "statedFadeWeight shifted_grid 0 (Vec3 0 0 0) > 0"
    by (simp add: statedFadeWeight_def fadeWeight_def Let_def shifted_grid_def grid_data_def
        xyz_def zip3_def Min3_def)
  have ok: "cascades_ok shifted_grid"
    by (simp add: cascades_ok_def shifted_grid_def grid_data_def)
  from sel stated ok show ?thesis
    by (simp add: SampleDDGIIrradiance_def Let_def)
qed

section \<open>Base probe coordinates\<close>

lemma max_word_zero: "max (v :: uint) 0 = v"
  by (simp add: max_def)

lemma uint_pred:
  fixes n :: uint
  assumes "n \<noteq> 0"
  shows "uint (n - 1) = uint n - 1"
proof -
  have "0 < unat n" using assms by (simp add: unat_gt_0)
  moreover have "unat (n - 1) = unat n - 1" using assms by (rule unat_minus_one)
  ultimately have "int (unat (n - 1)) = int (unat n) - 1" by (simp add: of_nat_diff)
  then show ?thesis by (simp only: uint_nat)
qed


lemma min_word_zero: "min (0 :: uint) v = 0"
  by (simp add: min_def)

lemma min_word_max: "min (- 1 :: uint) v = v"
  by (simp add: min_def word_order.extremum_unique)

lemma uint_min_word: "uint (min a b :: uint) = min (uint a) (uint b)"
  by (simp add: min_def word_le_def)

lemma base_axis:
  fixes n :: uint
  assumes n: "n \<noteq> 0"
  shows "uint (clamp_uint (float_to_uint q) 0 (n - 1)) = min (max \<lfloor>q\<rfloor> 0) (uint n - 1)"
proof -
  have n1: "uint (n - 1) = uint n - 1" using n by (rule uint_pred)
  have npos: "0 \<le> uint n - 1" using uint_pos_of_nonzero [OF n] by linarith
  have "uint n < 2 ^ 32" using uint_lt2p [of n] by simp
  then have nmax: "uint n - 1 < 4294967295" by simp
  have clamp: "clamp_uint v 0 (n - 1) = min v (n - 1)" for v
    by (simp only: clamp_uint_def max_word_zero)
  consider (neg) "q \<le> 0" | (big) "0 < q" "4294967295 \<le> q" | (mid) "0 < q" "q < 4294967295"
    by linarith
  then show ?thesis
  proof cases
    case neg
    then have fl: "\<lfloor>q\<rfloor> \<le> 0" by (simp add: floor_le_zero)
    from neg have "float_to_uint q = 0" by (simp add: float_to_uint_def)
    then have "uint (clamp_uint (float_to_uint q) 0 (n - 1)) = 0"
      by (simp only: clamp min_word_zero uint_0_eq)
    moreover from fl npos have "min (max \<lfloor>q\<rfloor> 0) (uint n - 1) = 0" by linarith
    ultimately show ?thesis by (rule trans [OF _ sym])
  next
    case big
    then have fl: "4294967295 \<le> \<lfloor>q\<rfloor>" by (simp add: le_floor_iff)
    from big have "float_to_uint q = - 1" by (simp add: float_to_uint_def)
    then have "uint (clamp_uint (float_to_uint q) 0 (n - 1)) = uint n - 1"
      by (simp only: clamp min_word_max n1)
    moreover from fl nmax have "min (max \<lfloor>q\<rfloor> 0) (uint n - 1) = uint n - 1" by linarith
    ultimately show ?thesis by (rule trans [OF _ sym])
  next
    case mid
    then have f0: "0 \<le> \<lfloor>q\<rfloor>" by simp
    from mid have f1: "\<lfloor>q\<rfloor> < 4294967295" by (simp add: floor_less_iff)
    then have "\<lfloor>q\<rfloor> < 2 ^ 32" by simp
    then have u: "uint (word_of_int \<lfloor>q\<rfloor> :: uint) = \<lfloor>q\<rfloor>"
      by (rule uint_word_of_int_small [OF f0])
    from mid have "float_to_uint q = word_of_int \<lfloor>q\<rfloor>" by (simp add: float_to_uint_def)
    then have "uint (clamp_uint (float_to_uint q) 0 (n - 1)) = min \<lfloor>q\<rfloor> (uint n - 1)"
      by (simp only: clamp uint_min_word u n1)
    moreover from f0 have "min (max \<lfloor>q\<rfloor> 0) (uint n - 1) = min \<lfloor>q\<rfloor> (uint n - 1)" by linarith
    ultimately show ?thesis by (rule trans [OF _ sym])
  qed
qed

lemma baseProbeCoords_spec:
  assumes pos: "counts_positive data"
  shows "map_vec3 uint (baseProbeCoords data cascadeIndex worldPosition) =
           specBaseCoords (scrolledOrigin data cascadeIndex)
             (w4 (ProbesOriginAndSpacing data ! unat cascadeIndex)) (ProbesCounts data)
             worldPosition"
proof -
  from pos have nz: "x3 (ProbesCounts data) \<noteq> 0" "y3 (ProbesCounts data) \<noteq> 0"
    "z3 (ProbesCounts data) \<noteq> 0"
    by (simp_all add: counts_positive_def)
  show ?thesis
    by (simp add: baseProbeCoords_def specBaseCoords_def gridQuotient_def Let_def zip3_def
        vec3.map_sel base_axis [OF nz(1)] base_axis [OF nz(2)] base_axis [OF nz(3)]
        probesOrigin_eq probesExtent_eq [OF pos] probesSpacing_def)
qed

lemma baseProbeCoords_in_grid:
  assumes pos: "counts_positive data"
  shows "x3 (baseProbeCoords data c wp) < x3 (ProbesCounts data)"
    "y3 (baseProbeCoords data c wp) < y3 (ProbesCounts data)"
    "z3 (baseProbeCoords data c wp) < z3 (ProbesCounts data)"
proof -
  have ax: "clamp_uint v 0 (n - 1) < n" if "n \<noteq> 0" for v n :: uint
  proof -
    have "uint (clamp_uint v 0 (n - 1)) \<le> uint n - 1"
      by (simp add: clamp_uint_def max_word_zero uint_min_word uint_pred [OF that])
    then show ?thesis by (simp add: word_less_def)
  qed
  from pos show "x3 (baseProbeCoords data c wp) < x3 (ProbesCounts data)"
    "y3 (baseProbeCoords data c wp) < y3 (ProbesCounts data)"
    "z3 (baseProbeCoords data c wp) < z3 (ProbesCounts data)"
    by (simp_all add: counts_positive_def baseProbeCoords_def zip3_def ax)
qed

lemma shifted4_select: "selectCascade shifted4_grid (Vec3 2 0 0) 0 0 = 0"
proof -
  have w0: "cascadeWeight shifted4_grid 0 (Vec3 2 0 0) > 0"
    by (simp add: cascadeWeight_def Let_def probesSpacing_def probesOrigin_def probesExtent_def
        shifted4_grid_def grid_data_def xyz_def zip3_def Min3_def saturate_def
        uint_to_float_def int_to_float_def)
  have c: "CascadesCount shifted4_grid = 1"
    by (simp add: shifted4_grid_def grid_data_def)
  show ?thesis using w0 by (subst selectCascade.simps) (simp add: c)
qed

lemma shifted4_base: "baseProbeCoords shifted4_grid 0 (Vec3 2 0 0) = Vec3 1 1 1"
  by (simp add: baseProbeCoords_def probesSpacing_def probesOrigin_def probesExtent_def
        shifted4_grid_def grid_data_def xyz_def zip3_def float_to_uint_def clamp_uint_def
        uint_to_float_def int_to_float_def)

lemma axis_inside:
  fixes e p s m :: real
  assumes s: "0 < s" and e: "e = 0.5 * s * m" and in': "0 < e - \<bar>p\<bar>"
  shows "0 < (p + e) / s" "(p + e) / s < m"
proof -
  from in' have "0 < p + e" "p + e < 2 * e" by linarith+
  then show "0 < (p + e) / s" using s by simp
  have "2 * e = m * s" unfolding e by (simp add: mult.commute)
  with \<open>p + e < 2 * e\<close> have "p + e < m * s" by simp
  then show "(p + e) / s < m" using s by (simp add: divide_less_eq)
qed

lemma selected_quotient_inside:
  assumes pos: "counts_positive data"
    and s: "0 < w4 (ProbesOriginAndSpacing data ! unat cascadeIndex)"
    and d: "0 \<le> dither"
    and sel: "cascadeWeight data cascadeIndex worldPosition > dither"
  shows "0 < x3 (gridQuotient (scrolledOrigin data cascadeIndex)
              (w4 (ProbesOriginAndSpacing data ! unat cascadeIndex)) (ProbesCounts data) worldPosition) \<and>
         x3 (gridQuotient (scrolledOrigin data cascadeIndex)
              (w4 (ProbesOriginAndSpacing data ! unat cascadeIndex)) (ProbesCounts data) worldPosition) < real (unat (x3 (ProbesCounts data))) - 1 \<and>
         0 < y3 (gridQuotient (scrolledOrigin data cascadeIndex)
              (w4 (ProbesOriginAndSpacing data ! unat cascadeIndex)) (ProbesCounts data) worldPosition) \<and>
         y3 (gridQuotient (scrolledOrigin data cascadeIndex)
              (w4 (ProbesOriginAndSpacing data ! unat cascadeIndex)) (ProbesCounts data) worldPosition) < real (unat (y3 (ProbesCounts data))) - 1 \<and>
         0 < z3 (gridQuotient (scrolledOrigin data cascadeIndex)
              (w4 (ProbesOriginAndSpacing data ! unat cascadeIndex)) (ProbesCounts data) worldPosition) \<and>
         z3 (gridQuotient (scrolledOrigin data cascadeIndex)
              (w4 (ProbesOriginAndSpacing data ! unat cascadeIndex)) (ProbesCounts data) worldPosition) < real (unat (z3 (ProbesCounts data))) - 1"
proof -
  let ?s = "w4 (ProbesOriginAndSpacing data ! unat cascadeIndex)"
  let ?o = "scrolledOrigin data cascadeIndex"
  let ?e = "\<lambda>n. 0.5 * ?s * (real (unat n) - 1)"
  let ?m = "Min3 (zip3 (-) (map_vec3 ?e (ProbesCounts data))
                    (map_vec3 abs (zip3 (-) worldPosition ?o)))"
  have w: "cascadeWeight data cascadeIndex worldPosition = min (max (?m / (0.5 * ?s)) 0) 1"
    by (simp add: cascadeWeight_eq [OF pos] scrolledFadeWeight_def fadeWeight_def Let_def)
  from sel d have "0 < min (max (?m / (0.5 * ?s)) 0) 1" unfolding w by linarith
  then have "0 < ?m / (0.5 * ?s)" by (simp add: min_def max_def split: if_splits)
  with s have m: "0 < ?m" by (simp add: zero_less_divide_iff)
  then have mx: "0 < ?e (x3 (ProbesCounts data)) - \<bar>x3 worldPosition - x3 ?o\<bar>"
    and my: "0 < ?e (y3 (ProbesCounts data)) - \<bar>y3 worldPosition - y3 ?o\<bar>"
    and mz: "0 < ?e (z3 (ProbesCounts data)) - \<bar>z3 worldPosition - z3 ?o\<bar>"
    by (simp_all add: Min3_def zip3_def vec3.map_sel)
  show ?thesis
    using axis_inside [OF s refl mx] axis_inside [OF s refl my] axis_inside [OF s refl mz]
    by (simp add: gridQuotient_def Let_def zip3_def vec3.map_sel)
qed

text \<open>
  C5 (as amended).  With positive probe counts, the base probe coordinate computed by the
  sampler equals \<open>clamp(floor((worldPos - origin' + extent) / spacing), 0, counts - 1)\<close>
  componentwise, where \<open>origin' = origin + scrollOffset * spacing\<close> is the scrolled origin
  of the cascade and \<open>extent = 0.5 * spacing * (counts - 1)\<close>.  A negative quotient is
  cast to \<open>0\<close>.  In a cascade with positive spacing that was selected against a
  nonnegative dither value, every component of the quotient lies strictly between \<open>0\<close>
  and \<open>counts - 1\<close>.
\<close>

theorem C5_base_probe_coords:
  assumes pos: "counts_positive data"
  shows "map_vec3 uint (baseProbeCoords data cascadeIndex worldPosition) =
           specBaseCoords (scrolledOrigin data cascadeIndex)
             (w4 (ProbesOriginAndSpacing data ! unat cascadeIndex)) (ProbesCounts data)
             worldPosition \<and>
         (\<forall>q n. n \<noteq> 0 \<and> q < 0 \<longrightarrow> clamp_uint (float_to_uint q) 0 (n - 1) = 0) \<and>
         (0 < w4 (ProbesOriginAndSpacing data ! unat cascadeIndex) \<and> 0 \<le> dither \<and>
          cascadeWeight data cascadeIndex worldPosition > dither \<longrightarrow>
            0 < x3 (gridQuotient (scrolledOrigin data cascadeIndex)
                      (w4 (ProbesOriginAndSpacing data ! unat cascadeIndex)) (ProbesCounts data)
                      worldPosition) \<and>
            x3 (gridQuotient (scrolledOrigin data cascadeIndex)
                      (w4 (ProbesOriginAndSpacing data ! unat cascadeIndex)) (ProbesCounts data)
                      worldPosition) < real (unat (x3 (ProbesCounts data))) - 1 \<and>
            0 < y3 (gridQuotient (scrolledOrigin data cascadeIndex)
                      (w4 (ProbesOriginAndSpacing data ! unat cascadeIndex)) (ProbesCounts data)
                      worldPosition) \<and>
            y3 (gridQuotient (scrolledOrigin data cascadeIndex)
                      (w4 (ProbesOriginAndSpacing data ! unat cascadeIndex)) (ProbesCounts data)
                      worldPosition) < real (unat (y3 (ProbesCounts data))) - 1 \<and>
            0 < z3 (gridQuotient (scrolledOrigin data cascadeIndex)
                      (w4 (ProbesOriginAndSpacing data ! unat cascadeIndex)) (ProbesCounts data)
                      worldPosition) \<and>
            z3 (gridQuotient (scrolledOrigin data cascadeIndex)
                      (w4 (ProbesOriginAndSpacing data ! unat cascadeIndex)) (ProbesCounts data)
                      worldPosition) < real (unat (z3 (ProbesCounts data))) - 1)"
proof (intro conjI impI)
  show "map_vec3 uint (baseProbeCoords data cascadeIndex worldPosition) =
           specBaseCoords (scrolledOrigin data cascadeIndex)
             (w4 (ProbesOriginAndSpacing data ! unat cascadeIndex)) (ProbesCounts data)
             worldPosition"
    by (rule baseProbeCoords_spec [OF pos])
  show "\<forall>q n. n \<noteq> 0 \<and> q < 0 \<longrightarrow> clamp_uint (float_to_uint q) 0 (n - 1) = 0"
    by (simp add: float_to_uint_def clamp_uint_def max_word_zero min_word_zero)
next
  assume sel: "0 < w4 (ProbesOriginAndSpacing data ! unat cascadeIndex) \<and> 0 \<le> dither \<and>
          cascadeWeight data cascadeIndex worldPosition > dither"
  note inside = selected_quotient_inside [OF pos sel [THEN conjunct1]
      sel [THEN conjunct2, THEN conjunct1] sel [THEN conjunct2, THEN conjunct2]]
  show "0 < x3 (gridQuotient (scrolledOrigin data cascadeIndex)
                      (w4 (ProbesOriginAndSpacing data ! unat cascadeIndex)) (ProbesCounts data)
                      worldPosition)"
    "x3 (gridQuotient (scrolledOrigin data cascadeIndex)
                      (w4 (ProbesOriginAndSpacing data ! unat cascadeIndex)) (ProbesCounts data)
                      worldPosition) < real (unat (x3 (ProbesCounts data))) - 1"
    "0 < y3 (gridQuotient (scrolledOrigin data cascadeIndex)
                      (w4 (ProbesOriginAndSpacing data ! unat cascadeIndex)) (ProbesCounts data)
                      worldPosition)"
    "y3 (gridQuotient (scrolledOrigin data cascadeIndex)
                      (w4 (ProbesOriginAndSpacing data ! unat cascadeIndex)) (ProbesCounts data)
                      worldPosition) < real (unat (y3 (ProbesCounts data))) - 1"
    "0 < z3 (gridQuotient (scrolledOrigin data cascadeIndex)
                      (w4 (ProbesOriginAndSpacing data ! unat cascadeIndex)) (ProbesCounts data)
                      worldPosition)"
    "z3 (gridQuotient (scrolledOrigin data cascadeIndex)
                      (w4 (ProbesOriginAndSpacing data ! unat cascadeIndex)) (ProbesCounts data)
                      worldPosition) < real (unat (z3 (ProbesCounts data))) - 1"
    using inside by blast+
qed

lemma shifted4_weight: "cascadeWeight shifted4_grid 0 (Vec3 2 0 0) > 0"
  by (simp add: cascadeWeight_def Let_def probesSpacing_def probesOrigin_def probesExtent_def
      shifted4_grid_def grid_data_def xyz_def zip3_def Min3_def saturate_def
      uint_to_float_def int_to_float_def)

theorem C5_base_probe_coords_witness:
  "counts_positive shifted4_grid \<and>
   0 < w4 (ProbesOriginAndSpacing shifted4_grid ! unat (0 :: uint)) \<and>
   cascadeWeight shifted4_grid 0 (Vec3 2 0 0) > 0 \<and>
   map_vec3 uint (baseProbeCoords shifted4_grid 0 (Vec3 2 0 0)) =
     specBaseCoords (scrolledOrigin shifted4_grid 0)
       (w4 (ProbesOriginAndSpacing shifted4_grid ! unat (0 :: uint)))
       (ProbesCounts shifted4_grid) (Vec3 2 0 0) \<and>
   (- 1 / 2 :: float) < 0 \<and> clamp_uint (float_to_uint (- 1 / 2)) 0 (4 - 1) = 0 \<and>
   0 < x3 (gridQuotient (scrolledOrigin shifted4_grid 0)
             (w4 (ProbesOriginAndSpacing shifted4_grid ! unat (0 :: uint)))
             (ProbesCounts shifted4_grid) (Vec3 2 0 0)) \<and>
   x3 (gridQuotient (scrolledOrigin shifted4_grid 0)
             (w4 (ProbesOriginAndSpacing shifted4_grid ! unat (0 :: uint)))
             (ProbesCounts shifted4_grid) (Vec3 2 0 0))
     < real (unat (x3 (ProbesCounts shifted4_grid))) - 1"
proof -
  have pos: "counts_positive shifted4_grid"
    by (simp add: counts_positive_def shifted4_grid_def grid_data_def)
  have s: "0 < w4 (ProbesOriginAndSpacing shifted4_grid ! unat (0 :: uint))"
    by (simp add: shifted4_grid_def grid_data_def)
  note t = C5_base_probe_coords [OF pos, of 0 "Vec3 2 0 0" 0]
  have neg: "clamp_uint (float_to_uint (- 1 / 2)) 0 (4 - 1) = 0"
    using t [THEN conjunct2, THEN conjunct1, rule_format, of 4 "- 1 / 2"] by simp
  have "0 < w4 (ProbesOriginAndSpacing shifted4_grid ! unat (0 :: uint)) \<and> (0 :: float) \<le> 0 \<and>
        cascadeWeight shifted4_grid 0 (Vec3 2 0 0) > 0"
    using s shifted4_weight by simp
  with t [THEN conjunct2, THEN conjunct2]
  have "0 < x3 (gridQuotient (scrolledOrigin shifted4_grid 0)
             (w4 (ProbesOriginAndSpacing shifted4_grid ! unat (0 :: uint)))
             (ProbesCounts shifted4_grid) (Vec3 2 0 0)) \<and>
   x3 (gridQuotient (scrolledOrigin shifted4_grid 0)
             (w4 (ProbesOriginAndSpacing shifted4_grid ! unat (0 :: uint)))
             (ProbesCounts shifted4_grid) (Vec3 2 0 0))
     < real (unat (x3 (ProbesCounts shifted4_grid))) - 1"
    by blast
  with t [THEN conjunct1] pos s shifted4_weight neg show ?thesis by simp
qed

text \<open>
  C5 as stated takes the distance from the configured origin.  In the grid of
  \<open>4 x 4 x 4\<close> probes with spacing \<open>2\<close>, scrolled by one cell along x, the point
  \<open>(2, 0, 0)\<close> lies in the selected cascade (and has a positive fade weight around the
  configured origin as well); the sampler computes the base coordinate \<open>(1, 1, 1)\<close>,
  the formula around the configured origin \<open>(0, 0, 0)\<close> gives \<open>(2, 1, 1)\<close>.
\<close>

theorem C5_scroll_counterexample:
  "selectCascade shifted4_grid (Vec3 2 0 0) 0 0 = 0 \<and>
   statedFadeWeight shifted4_grid 0 (Vec3 2 0 0) > 0 \<and>
   map_vec3 uint (baseProbeCoords shifted4_grid 0 (Vec3 2 0 0)) = Vec3 1 1 1 \<and>
   specBaseCoords (xyz (ProbesOriginAndSpacing shifted4_grid ! unat (0 :: uint)))
     (w4 (ProbesOriginAndSpacing shifted4_grid ! unat (0 :: uint)))
     (ProbesCounts shifted4_grid) (Vec3 2 0 0) = Vec3 2 1 1"
proof -
  have c: "CascadesCount shifted4_grid = 1"
    by (simp add: shifted4_grid_def grid_data_def)
  have sel: "selectCascade shifted4_grid (Vec3 2 0 0) 0 0 = 0"
    using shifted4_weight by (subst selectCascade.simps) (simp add: c)
  have base: "baseProbeCoords shifted4_grid 0 (Vec3 2 0 0) = Vec3 1 1 1"
    by (simp add: baseProbeCoords_def probesSpacing_def probesOrigin_def probesExtent_def
        shifted4_grid_def grid_data_def xyz_def zip3_def float_to_uint_def clamp_uint_def
        uint_to_float_def int_to_float_def)
  have "specBaseCoords (xyz (ProbesOriginAndSpacing shifted4_grid ! unat (0 :: uint)))
     (w4 (ProbesOriginAndSpacing shifted4_grid ! unat (0 :: uint)))
     (ProbesCounts shifted4_grid) (Vec3 2 0 0) = Vec3 2 1 1"
    by (simp add: specBaseCoords_def gridQuotient_def Let_def shifted4_grid_def grid_data_def
        xyz_def zip3_def)
  moreover have "statedFadeWeight shifted4_grid 0 (Vec3 2 0 0) > 0"
    by (simp add: statedFadeWeight_def fadeWeight_def Let_def shifted4_grid_def grid_data_def
        xyz_def zip3_def Min3_def)
  ultimately show ?thesis by (simp add: sel base)
qed

section \<open>Probe positions\<close>

lemma corner_axis_ge:
  fixes b n c :: uint
  assumes b: "b < n"
  shows "b \<le> clamp_uint (b + (c AND 1)) 0 (n - 1)"
proof -
  from b have n: "n \<noteq> 0" by auto
  have n1: "unat (n - 1) = unat n - 1" using n by (rule unat_minus_one)
  from b have bn: "unat b < unat n" by (simp add: word_less_nat_alt)
  have le1: "b \<le> n - 1" using bn n1 by (simp add: word_le_nat_alt)
  have "c AND 1 = 0 \<or> c AND 1 = 1" by (simp add: and_one_eq) (metis even_iff_mod_2_eq_zero odd_iff_mod_2_eq_one)
  then have le2: "b \<le> b + (c AND 1)"
  proof
    assume "c AND 1 = 0" then show ?thesis by simp
  next
    assume "c AND 1 = 1"
    then show ?thesis using unat_word_succ [OF b] by (simp add: word_le_nat_alt)
  qed
  from le1 le2 show ?thesis by (simp add: clamp_uint_def max_word_zero)
qed

lemma uint_to_float_diff:
  assumes "b \<le> c"
  shows "uint_to_float (c - b) = uint_to_float c - uint_to_float b"
proof -
  from assms have "unat b \<le> unat c" by (simp add: word_le_nat_alt)
  moreover have "unat (c - b) = unat c - unat b" using assms by (rule unat_sub)
  ultimately show ?thesis by (simp add: uint_to_float_def of_nat_diff)
qed

lemma probeBasePosition_direct:
  assumes x: "x3 base < x3 (ProbesCounts data)" and y: "y3 base < y3 (ProbesCounts data)"
    and z: "z3 base < z3 (ProbesCounts data)"
  shows "probeBasePosition data cascadeIndex base (cornerProbeCoords data base i) =
         GetDDGIProbeWorldPosition data cascadeIndex (cornerProbeCoords data base i)"
proof -
  let ?c = "cornerProbeCoords data base i"
  have cx: "x3 base \<le> x3 ?c" and cy: "y3 base \<le> y3 ?c" and cz: "z3 base \<le> z3 ?c"
    using corner_axis_ge [OF x] corner_axis_ge [OF y] corner_axis_ge [OF z]
    by (simp_all add: cornerProbeCoords_def zip3_def probeCoordsOffset_def vec3.map_sel)
  show ?thesis
    by (simp add: probeBasePosition_def GetDDGIProbeWorldPosition_def Let_def zip3_def
        vec3.map_sel probesSpacing_def uint_to_float_diff [OF cx] uint_to_float_diff [OF cy]
        uint_to_float_diff [OF cz] algebra_simps)
qed

text \<open>
  C8 (as amended).  For every base probe coordinate inside the grid and every corner \<open>i\<close>
  of the loop, the position reconstructed as
  \<open>baseProbeWorldPosition + (probeCoords - baseProbeCoords) * spacing\<close> equals
  \<open>GetDDGIProbeWorldPosition\<close> of the corner coordinates (both before the relocation of
  the probe is added) when both are evaluated in exact arithmetic; in particular for the
  base coordinate the sampler computes from the world position, whenever the probe counts
  are positive.  Evaluated in binary32 the two sums are associated differently and can
  differ in the last bits.
\<close>

theorem C8_incremental_position:
  "(x3 base < x3 (ProbesCounts data) \<and> y3 base < y3 (ProbesCounts data) \<and>
    z3 base < z3 (ProbesCounts data) \<longrightarrow>
      probeBasePosition data cascadeIndex base (cornerProbeCoords data base i) =
      GetDDGIProbeWorldPosition data cascadeIndex (cornerProbeCoords data base i)) \<and>
   (counts_positive data \<longrightarrow>
      probeBasePosition data cascadeIndex (baseProbeCoords data cascadeIndex worldPosition)
        (cornerProbeCoords data (baseProbeCoords data cascadeIndex worldPosition) i) =
      GetDDGIProbeWorldPosition data cascadeIndex
        (cornerProbeCoords data (baseProbeCoords data cascadeIndex worldPosition) i))"
proof (intro conjI impI)
  assume "x3 base < x3 (ProbesCounts data) \<and> y3 base < y3 (ProbesCounts data) \<and>
    z3 base < z3 (ProbesCounts data)"
  then show "probeBasePosition data cascadeIndex base (cornerProbeCoords data base i) =
      GetDDGIProbeWorldPosition data cascadeIndex (cornerProbeCoords data base i)"
    by (intro probeBasePosition_direct) simp_all
next
  assume "counts_positive data"
  then show "probeBasePosition data cascadeIndex (baseProbeCoords data cascadeIndex worldPosition)
        (cornerProbeCoords data (baseProbeCoords data cascadeIndex worldPosition) i) =
      GetDDGIProbeWorldPosition data cascadeIndex
        (cornerProbeCoords data (baseProbeCoords data cascadeIndex worldPosition) i)"
    by (intro probeBasePosition_direct baseProbeCoords_in_grid)
qed

theorem C8_incremental_position_witness:
  "counts_positive shifted4_grid \<and>
   x3 (Vec3 3 0 2 :: uint vec3) < x3 (ProbesCounts shifted4_grid) \<and>
   y3 (Vec3 3 0 2 :: uint vec3) < y3 (ProbesCounts shifted4_grid) \<and>
   z3 (Vec3 3 0 2 :: uint vec3) < z3 (ProbesCounts shifted4_grid) \<and>
   probeBasePosition shifted4_grid 0 (Vec3 3 0 2) (cornerProbeCoords shifted4_grid (Vec3 3 0 2) 5) =
   GetDDGIProbeWorldPosition shifted4_grid 0 (cornerProbeCoords shifted4_grid (Vec3 3 0 2) 5) \<and>
   probeBasePosition shifted4_grid 0 (baseProbeCoords shifted4_grid 0 (Vec3 2 0 0))
     (cornerProbeCoords shifted4_grid (baseProbeCoords shifted4_grid 0 (Vec3 2 0 0)) 5) =
   GetDDGIProbeWorldPosition shifted4_grid 0
     (cornerProbeCoords shifted4_grid (baseProbeCoords shifted4_grid 0 (Vec3 2 0 0)) 5)"
proof -
  have pos: "counts_positive shifted4_grid"
    by (simp add: counts_positive_def shifted4_grid_def grid_data_def)
  have g: "x3 (Vec3 3 0 2 :: uint vec3) < x3 (ProbesCounts shifted4_grid) \<and>
           y3 (Vec3 3 0 2 :: uint vec3) < y3 (ProbesCounts shifted4_grid) \<and>
           z3 (Vec3 3 0 2 :: uint vec3) < z3 (ProbesCounts shifted4_grid)"
    by (simp add: shifted4_grid_def grid_data_def)
  from C8_incremental_position [of "Vec3 3 0 2" shifted4_grid 0 5 "Vec3 2 0 0"] pos g
  show ?thesis by blast
qed

lemma f32_pos_0: "float32 (4) = 4"
  by (rule trans [OF float32_eq [where e = "2" and m = "8388608"]])
     (simp_all add: pow2_def round_ties_even_def)

lemma f32_pos_1: "float32 (7130317 / 1048576) = 7130317 / 1048576"
  by (rule trans [OF float32_eq [where e = "2" and m = "14260634"]])
     (simp_all add: pow2_def round_ties_even_def)

lemma f32_pos_2: "float32 (7) = 7"
  by (rule trans [OF float32_eq [where e = "2" and m = "14680064"]])
     (simp_all add: pow2_def round_ties_even_def)

lemma f32_pos_3: "float32 (49912219 / 4194304) = 12478055 / 1048576"
  by (rule trans [OF float32_eq [where e = "3" and m = "12478055"]])
     (simp_all add: pow2_def round_ties_even_def)

lemma f32_pos_4: "float32 (12478055 / 2097152) = 12478055 / 2097152"
  by (rule trans [OF float32_eq [where e = "2" and m = "12478055"]])
     (simp_all add: pow2_def round_ties_even_def)

lemma f32_pos_5: "float32 (119118237 / 16777216) = 3722445 / 524288"
  by (rule trans [OF float32_eq [where e = "2" and m = "14889780"]])
     (simp_all add: pow2_def round_ties_even_def)

lemma f32_pos_6: "float32 (2411725 / 2097152) = 2411725 / 2097152"
  by (rule trans [OF float32_eq [where e = "0" and m = "9646900"]])
     (simp_all add: pow2_def round_ties_even_def)

lemma f32_pos_7: "float32 (3) = 3"
  by (rule trans [OF float32_eq [where e = "1" and m = "12582912"]])
     (simp_all add: pow2_def round_ties_even_def)

lemma f32_pos_8: "float32 (21390951 / 4194304) = 2673869 / 524288"
  by (rule trans [OF float32_eq [where e = "2" and m = "10695476"]])
     (simp_all add: pow2_def round_ties_even_def)

lemma f32_pos_9: "float32 (90596973 / 16777216) = 5662311 / 1048576"
  by (rule trans [OF float32_eq [where e = "2" and m = "11324622"]])
     (simp_all add: pow2_def round_ties_even_def)

lemma f32_pos_10: "float32 (- (1153433 / 2097152)) = - (1153433 / 2097152)"
  by (rule trans [OF float32_eq [where e = "- 1" and m = "- 9227464"]])
     (simp_all add: pow2_def round_ties_even_def)

lemma f32_pos_11: "float32 (1) = 1"
  by (rule trans [OF float32_eq [where e = "0" and m = "8388608"]])
     (simp_all add: pow2_def round_ties_even_def)

lemma f32_pos_12: "float32 (7130317 / 4194304) = 7130317 / 4194304"
  by (rule trans [OF float32_eq [where e = "0" and m = "14260634"]])
     (simp_all add: pow2_def round_ties_even_def)

lemma f32_pos_13: "float32 (4823451 / 4194304) = 4823451 / 4194304"
  by (rule trans [OF float32_eq [where e = "0" and m = "9646902"]])
     (simp_all add: pow2_def round_ties_even_def)

lemmas f32_pos = f32_pos_0 f32_pos_1 f32_pos_2 f32_pos_3 f32_pos_4 f32_pos_5 f32_pos_6 f32_pos_7 f32_pos_8 f32_pos_9 f32_pos_10 f32_pos_11 f32_pos_12 f32_pos_13

lemma corner4: "cornerProbeCoords rounding_grid (Vec3 3 3 3) 7 = Vec3 4 4 4"
  by (simp add: cornerProbeCoords_def probeCoordsOffset_def zip3_def clamp_uint_def
      rounding_grid_def grid_data_def drop_bit_eq_div)

lemma direct4: "GetDDGIProbeWorldPosition_f32 rounding_grid 0 (Vec3 4 4 4) = Vec3 (2411725 / 2097152) (2411725 / 2097152) (2411725 / 2097152)"
  by (simp add: GetDDGIProbeWorldPosition_f32_def Let_def zip3_def xyz_def rounding_grid_def
      grid_data_def fadd_def fsub_def fmul_def uint_to_float32_def int_to_float32_def
      uint_to_float_def int_to_float_def float32_def [of 0] f32_pos)

lemma inc4: "probeBasePosition_f32 rounding_grid 0 (Vec3 3 3 3) (Vec3 4 4 4) = Vec3 (4823451 / 4194304) (4823451 / 4194304) (4823451 / 4194304)"
  by (simp add: probeBasePosition_f32_def GetDDGIProbeWorldPosition_f32_def Let_def zip3_def
      xyz_def rounding_grid_def probesSpacing_def
      grid_data_def fadd_def fsub_def fmul_def uint_to_float32_def int_to_float32_def
      uint_to_float_def int_to_float_def float32_def [of 0] f32_pos)

text \<open>
  C8 as stated fails in binary32.  With \<open>8\<close> probes per axis, origin \<open>0.3\<close> and spacing
  \<open>1.7\<close> (their nearest binary32 values), base coordinate \<open>3\<close> and corner \<open>7\<close>, so that
  the corner coordinate is \<open>4\<close>, the direct position is \<open>2411725 / 2^21\<close>
  (\<open>0x1.266668p+0\<close>) on every axis and the incremental one \<open>4823451 / 2^22\<close>
  (\<open>0x1.26666cp+0\<close>).
\<close>

theorem C8_rounding_counterexample:
  "x3 (Vec3 3 3 3 :: uint vec3) < x3 (ProbesCounts rounding_grid) \<and>
   y3 (Vec3 3 3 3 :: uint vec3) < y3 (ProbesCounts rounding_grid) \<and>
   z3 (Vec3 3 3 3 :: uint vec3) < z3 (ProbesCounts rounding_grid) \<and>
   cornerProbeCoords rounding_grid (Vec3 3 3 3) 7 = Vec3 4 4 4 \<and>
   GetDDGIProbeWorldPosition_f32 rounding_grid 0 (cornerProbeCoords rounding_grid (Vec3 3 3 3) 7) =
     Vec3 (2411725 / 2097152) (2411725 / 2097152) (2411725 / 2097152) \<and>
   probeBasePosition_f32 rounding_grid 0 (Vec3 3 3 3)
       (cornerProbeCoords rounding_grid (Vec3 3 3 3) 7) =
     Vec3 (4823451 / 4194304) (4823451 / 4194304) (4823451 / 4194304) \<and>
   probeBasePosition_f32 rounding_grid 0 (Vec3 3 3 3)
       (cornerProbeCoords rounding_grid (Vec3 3 3 3) 7) \<noteq>
     GetDDGIProbeWorldPosition_f32 rounding_grid 0
       (cornerProbeCoords rounding_grid (Vec3 3 3 3) 7)"
proof -
  have g: "x3 (Vec3 3 3 3 :: uint vec3) < x3 (ProbesCounts rounding_grid)"
    "y3 (Vec3 3 3 3 :: uint vec3) < y3 (ProbesCounts rounding_grid)"
    "z3 (Vec3 3 3 3 :: uint vec3) < z3 (ProbesCounts rounding_grid)"
    by (simp_all add: rounding_grid_def grid_data_def)
  have "Vec3 (4823451 / 4194304) (4823451 / 4194304) (4823451 / 4194304) \<noteq>
        (Vec3 (2411725 / 2097152) (2411725 / 2097152) (2411725 / 2097152) :: float vec3)"
    by simp
  with g show ?thesis
    by (simp only: corner4 direct4 inc4) simp
qed

section \<open>Inactive probes\<close>

lemma cornerLoop_all_inactive:
  assumes "\<forall>j<8. w4 (cornerProbeState data probesState cascadeIndex worldPosition j) = DDGI_PROBE_STATE_INACTIVE"
  shows "cornerLoop oct data probesState probesDistance probesIrradiance worldPosition worldNormal
           bias cascadeIndex i irradiance = irradiance"
  using assms
proof (induction oct data probesState probesDistance probesIrradiance worldPosition worldNormal
           bias cascadeIndex i irradiance rule: cornerLoop.induct)
  case (1 oct data probesState probesDistance probesIrradiance worldPosition worldNormal bias cascadeIndex i irradiance)
  show ?case
  proof (cases "i < 8")
    case True
    with "1.prems" have "w4 (cornerProbeState data probesState cascadeIndex worldPosition i) = DDGI_PROBE_STATE_INACTIVE"
      by blast
    then have step: "cornerStep oct data probesState probesDistance probesIrradiance worldPosition worldNormal
           bias cascadeIndex i irradiance = irradiance"
      by (rule cornerStep_inactive)
    from "1.IH" [OF True "1.prems"] step True show ?thesis
      by (subst cornerLoop.simps) simp
  next
    case False
    then show ?thesis by (subst cornerLoop.simps) simp
  qed
qed

text \<open>
  C7.  When a cascade is selected and the state loaded for each of the eight corner
  probes is \<open>INACTIVE\<close>, the sampler returns exactly \<open>(0, 0, 0)\<close>, whatever the position,
  the normal and the bias are.  The result does not come from the fallback path: it is
  \<open>(0, 0, 0)\<close> also where \<open>FallbackIrradiance\<close> is not.
\<close>

theorem C7_all_inactive_zero:
  assumes sel: "selectCascade data worldPosition dither 0 \<noteq> CascadesCount data"
    and off: "\<forall>i<8. w4 (cornerProbeState data probesState (selectCascade data worldPosition dither 0)
                         worldPosition i) = DDGI_PROBE_STATE_INACTIVE"
  shows "SampleDDGIIrradiance oct data probesState probesDistance probesIrradiance worldPosition
           worldNormal bias dither = Vec3 0 0 0"
  using sel
  by (simp add: SampleDDGIIrradiance_def Let_def cornerLoop_all_inactive [OF off]
      normalizeIrradiance_def xyz_def)

theorem C7_all_inactive_zero_witness:
  "selectCascade cube_grid (Vec3 0 0 0) 0 0 \<noteq> CascadesCount cube_grid \<and>
   (\<forall>i. w4 (cornerProbeState cube_grid (uniform_texture (Vec4 0 0 0 1))
               (selectCascade cube_grid (Vec3 0 0 0) 0 0) (Vec3 0 0 0) i)
         = DDGI_PROBE_STATE_INACTIVE) \<and>
   SampleDDGIIrradiance flat_oct cube_grid (uniform_texture (Vec4 0 0 0 1))
     (uniform_texture (Vec4 100 10000 0 0)) (uniform_texture (Vec4 1 1 1 1))
     (Vec3 0 0 0) (Vec3 0 0 1) 0 0 = Vec3 0 0 0 \<and>
   FallbackIrradiance cube_grid \<noteq> Vec3 0 0 0"
proof -
  have w0: "cascadeWeight cube_grid 0 (Vec3 0 0 0) > 0"
    by (simp add: cascadeWeight_def Let_def probesSpacing_def probesOrigin_def probesExtent_def
        cube_grid_def grid_data_def xyz_def zip3_def Min3_def saturate_def
        uint_to_float_def int_to_float_def)
  have c: "CascadesCount cube_grid = 1"
    by (simp add: cube_grid_def grid_data_def)
  have sel0: "selectCascade cube_grid (Vec3 0 0 0) 0 0 = 0"
    using w0 by (subst selectCascade.simps) (simp add: c)
  then have sel: "selectCascade cube_grid (Vec3 0 0 0) 0 0 \<noteq> CascadesCount cube_grid"
    by (simp add: c)
  have off: "w4 (cornerProbeState cube_grid (uniform_texture (Vec4 0 0 0 1))
               (selectCascade cube_grid (Vec3 0 0 0) 0 0) (Vec3 0 0 0) i)
         = DDGI_PROBE_STATE_INACTIVE" for i
    by (simp add: cornerProbeState_def loadProbeState_def Let_def uniform_texture_def
        DDGI_PROBE_STATE_INACTIVE_def)
  then have off8: "\<forall>i<8. w4 (cornerProbeState cube_grid (uniform_texture (Vec4 0 0 0 1))
               (selectCascade cube_grid (Vec3 0 0 0) 0 0) (Vec3 0 0 0) i)
         = DDGI_PROBE_STATE_INACTIVE"
    by blast
  have fb: "FallbackIrradiance cube_grid \<noteq> Vec3 0 0 0"
    by (simp add: cube_grid_def grid_data_def)
  from C7_all_inactive_zero [OF sel off8, of flat_oct "uniform_texture (Vec4 100 10000 0 0)"
      "uniform_texture (Vec4 1 1 1 1)" "Vec3 0 0 1" 0] sel off fb
  show ?thesis by blast
qed

section \<open>A uniform irradiance atlas\<close>









end
